theory Spec2Isabelle
  imports Complex_Main "HOL-Library.Sublist"
begin

section \<open>Data model (src/bout/core/types.py)\<close>

text \<open>
  Python floats are modelled as reals and Python ints as integers. Strings are lists of
  characters, one \<^typ>\<open>char\<close> per code point below 256. A \<open>datetime\<close> is a number
  of ticks and a \<open>Path\<close> is its string.
\<close>

type_synonym datetime = nat
type_synonym path = string

datatype job_status =
  PENDING | EXTRACTING | CHUNKING | TRANSCRIBING | MERGING | DIARIZING | GENERATING
  | COMPLETED | FAILED | CANCELLED

datatype chunk_status = CPending | CProcessing | CCompleted | CFailed

record transcription_segment =
  seg_start :: real
  seg_end :: real
  seg_text :: string
  speaker :: "string option"

record chunk =
  index :: int
  start_time :: real
  end_time :: real
  overlap_start :: real
  file_path :: "path option"
  status :: chunk_status
  chunk_text :: "string option"
  segments :: "transcription_segment list"
  completed_at :: "datetime option"
  chunk_error :: "string option"

text \<open>The constructor call \<open>Chunk(index, start_time, end_time, overlap_start)\<close> with the
  dataclass defaults for the other fields.\<close>

definition Chunk :: "int \<Rightarrow> real \<Rightarrow> real \<Rightarrow> real \<Rightarrow> chunk" where
  "Chunk i s e ov =
     \<lparr>index = i, start_time = s, end_time = e, overlap_start = ov, file_path = None,
      status = CPending, chunk_text = None, segments = [], completed_at = None,
      chunk_error = None\<rparr>"

datatype py_error = IndexError

section \<open>Chunk planner (src/bout/audio/chunker.py)\<close>

record chunker =
  chunk_duration :: int
  overlap :: int
  min_chunk :: int

text \<open>\<open>chunks[-1].end_time = duration\<close>: raises IndexError on an empty list.\<close>

definition extend_last :: "chunk list \<Rightarrow> real \<Rightarrow> py_error + chunk list" where
  "extend_last chunks duration =
     (case chunks of
        [] \<Rightarrow> Inl IndexError
      | _ # _ \<Rightarrow> Inr (butlast chunks @ [(last chunks)\<lparr>end_time := duration\<rparr>]))"

text \<open>The \<open>while start_time < duration\<close> loop of \<open>calculate_chunks\<close>. The loop need not
  terminate (a step \<open>chunk_duration - overlap \<le> 0\<close>), so not returning is \<open>None\<close>.\<close>

partial_function (option) calc_loop ::
  "chunker \<Rightarrow> real \<Rightarrow> chunk list \<Rightarrow> real \<Rightarrow> int \<Rightarrow> (py_error + chunk list) option" where
  "calc_loop ck duration chunks st idx =
     (if st < duration then
        (if duration - st < of_int (min_chunk ck) \<and> idx > 0 then
           Some (extend_last chunks duration)
         else
           calc_loop ck duration
             (chunks @ [Chunk idx st (min (st + of_int (chunk_duration ck)) duration)
                          (if idx > 0 then of_int (overlap ck) else 0)])
             (st + of_int (chunk_duration ck - overlap ck)) (idx + 1))
      else Some (Inr chunks))"

declare calc_loop.simps [code]

definition calculate_chunks :: "chunker \<Rightarrow> real \<Rightarrow> (py_error + chunk list) option" where
  "calculate_chunks ck duration =
     (if duration \<le> 0 then Some (Inr [])
      else if duration \<le> of_int (chunk_duration ck) then Some (Inr [Chunk 0 0 duration 0])
      else calc_loop ck duration [] 0 0)"

section \<open>Python string operations\<close>

text \<open>\<open>str.isspace\<close> on a code point below 256: tab to carriage return, the four
  separators 28 to 31, the space, NEL (133) and the no-break space (160).\<close>

definition is_space :: "char \<Rightarrow> bool" where
  "is_space c =
     (let n = (of_char c :: nat)
      in (9 \<le> n \<and> n \<le> 13) \<or> (28 \<le> n \<and> n \<le> 32) \<or> n = 133 \<or> n = 160)"

text \<open>\<open>s.strip()\<close>.\<close>

definition strip :: "string \<Rightarrow> string" where
  "strip s = rev (dropWhile is_space (rev (dropWhile is_space s)))"

text \<open>\<open>sep.join(parts)\<close>.\<close>

fun join :: "string \<Rightarrow> string list \<Rightarrow> string" where
  "join sep [] = []"
| "join sep [x] = x"
| "join sep (x # y # ys) = x @ sep @ join sep (y # ys)"

text \<open>\<open>s.split()\<close>: the maximal runs of non-whitespace characters, in order.\<close>

fun split_words :: "string \<Rightarrow> string \<Rightarrow> string list" where
  "split_words acc [] = (if acc = [] then [] else [acc])"
| "split_words acc (c # cs) =
     (if is_space c then (if acc = [] then split_words [] cs else acc # split_words [] cs)
      else split_words (acc @ [c]) cs)"

definition split :: "string \<Rightarrow> string list" where
  "split s = split_words [] s"

text \<open>\<open>s.lower()\<close> on the ASCII letters, and the test \<open>needle in s\<close>.\<close>

definition lower_char :: "char \<Rightarrow> char" where
  "lower_char c =
     (let n = (of_char c :: nat) in if 65 \<le> n \<and> n \<le> 90 then char_of (n + 32) else c)"

definition lower :: "string \<Rightarrow> string" where
  "lower s = map lower_char s"

fun contains :: "string \<Rightarrow> string \<Rightarrow> bool" where
  "contains needle [] = (needle = [])"
| "contains needle (c # cs) = (prefix needle (c # cs) \<or> contains needle cs)"

section \<open>Chunk merger (src/bout/transcription/merger.py)\<close>

text \<open>The three filters take \<open>self.overlap_seconds\<close> as their first argument.\<close>

definition filter_segments_first_chunk :: "real \<Rightarrow> chunk \<Rightarrow> transcription_segment list" where
  "filter_segments_first_chunk overlap_seconds c =
     (let cutoff = end_time c - overlap_seconds
      in filter (\<lambda>seg.
           if seg_end seg \<le> cutoff then True
           else if seg_start seg < cutoff then (seg_start seg + seg_end seg) / 2 < cutoff
           else False) (segments c))"

definition filter_segments_last_chunk :: "real \<Rightarrow> chunk \<Rightarrow> transcription_segment list" where
  "filter_segments_last_chunk overlap_seconds c =
     (let skip_until = start_time c + overlap_start c
      in filter (\<lambda>seg.
           if seg_start seg \<ge> skip_until then True
           else if seg_end seg > skip_until then (seg_start seg + seg_end seg) / 2 \<ge> skip_until
           else False) (segments c))"

definition filter_segments_middle_chunk :: "real \<Rightarrow> chunk \<Rightarrow> transcription_segment list" where
  "filter_segments_middle_chunk overlap_seconds c =
     (let skip_until = start_time c + overlap_start c;
          cutoff = end_time c - overlap_seconds
      in filter (\<lambda>seg.
           let midpoint = (seg_start seg + seg_end seg) / 2
           in if seg_start seg \<ge> skip_until \<and> seg_end seg \<le> cutoff then True
              else if midpoint \<ge> skip_until \<and> midpoint \<le> cutoff then True
              else False) (segments c))"

text \<open>The body of the \<open>for i, chunk in enumerate(completed)\<close> loop: the segments kept
  for the chunk at position \<open>i\<close> of \<open>n\<close> completed chunks.\<close>

definition kept_segments :: "real \<Rightarrow> nat \<Rightarrow> nat \<Rightarrow> chunk \<Rightarrow> transcription_segment list" where
  "kept_segments overlap_seconds n i c =
     (if i = 0 then filter_segments_first_chunk overlap_seconds c
      else if i = n - 1 then filter_segments_last_chunk overlap_seconds c
      else filter_segments_middle_chunk overlap_seconds c)"

text \<open>\<open>sorted(chunks, key=index)\<close> and \<open>all_segments.sort(key=start)\<close> are stable sorts,
  as \<^const>\<open>sort_key\<close> is. In the single-chunk case \<open>completed[0].text\<close> is not \<open>None\<close>,
  by the filter before it.\<close>

definition merge_chunks :: "real \<Rightarrow> chunk list \<Rightarrow> string \<times> transcription_segment list" where
  "merge_chunks overlap_seconds chunks0 =
     (if chunks0 = [] then ([], [])
      else
        let sorted_chunks = sort_key index chunks0;
            completed = filter (\<lambda>c. chunk_text c \<noteq> None) sorted_chunks
        in if completed = [] then ([], [])
           else if length completed = 1
             then (the (chunk_text (hd completed)), segments (hd completed))
           else
             let parts = map (\<lambda>(i, c). kept_segments overlap_seconds (length completed) i c)
                           (enumerate 0 completed);
                 all_segments = concat parts;
                 full_text_parts = map (\<lambda>segs. join '' '' (map seg_text segs)) parts;
                 full_text = join '' '' full_text_parts
             in (join '' '' (split full_text), sort_key seg_start all_segments))"

section \<open>Transcription worker (src/bout/transcription/engine.py)\<close>

text \<open>
  The speech-recognition model is a collaborator. A call either returns a result
  dictionary (with optional keys \<open>text\<close> and \<open>segments\<close>), raises a \<open>RuntimeError\<close> with a
  message, or raises another exception.
\<close>

record model_segment =
  m_start :: real
  m_end :: real
  m_text :: string

record model_result =
  r_text :: "string option"
  r_segments :: "model_segment list option"

datatype model_outcome =
  Returned model_result | RaisedRuntimeError string | RaisedOther string

datatype exn =
  TranscriptionError string | OutOfMemoryError | ModelLoadError string | BoutError string
  | OtherError string

text \<open>
  The worker and what its collaborators do: the device chosen at load time, which chunk
  files exist, whether \<open>load_model\<close> fails (with which message), what the resident model
  does on the given attempt at the given file, what the CPU model does (loading it
  included), whether reloading the resident model after a CPU fallback fails, and the clock.
\<close>

record engine =
  device :: string
  file_exists :: "path \<Rightarrow> bool"
  load_model_error :: "string option"
  model_transcribe :: "path \<Rightarrow> nat \<Rightarrow> model_outcome"
  cpu_transcribe :: "path \<Rightarrow> model_outcome"
  reload_model_error :: "string option"
  now :: datetime

text \<open>The segment loop and the assignments after it, the same text in \<open>transcribe_chunk\<close>
  (lines 137 to 154) and in \<open>_transcribe_on_cpu\<close> (lines 204 to 219).\<close>

definition extract_segments :: "chunk \<Rightarrow> model_result \<Rightarrow> transcription_segment list" where
  "extract_segments c result =
     map (\<lambda>seg. \<lparr>seg_start = start_time c + m_start seg,
                 seg_end = start_time c + m_end seg,
                 seg_text = strip (m_text seg),
                 speaker = None\<rparr>)
       (case r_segments result of None \<Rightarrow> [] | Some segs \<Rightarrow> segs)"

definition complete_chunk :: "datetime \<Rightarrow> chunk \<Rightarrow> model_result \<Rightarrow> chunk" where
  "complete_chunk t c result =
     c\<lparr>chunk_text := Some (strip (case r_text result of None \<Rightarrow> [] | Some s \<Rightarrow> s)),
       segments := extract_segments c result,
       status := CCompleted,
       completed_at := Some t\<rparr>"

definition is_oom :: "string \<Rightarrow> bool" where
  "is_oom e = contains ''out of memory'' (lower e)"

text \<open>\<open>_transcribe_on_cpu\<close>: every exception of the \<open>try\<close> block, the failure to reload the
  resident model after the chunk's fields were assigned included, ends in the handler
  that marks the chunk FAILED and returns it.\<close>

definition transcribe_on_cpu :: "engine \<Rightarrow> chunk \<Rightarrow> path \<Rightarrow> chunk" where
  "transcribe_on_cpu eng c p =
     (case cpu_transcribe eng p of
        Returned result \<Rightarrow>
          (case reload_model_error eng of
             None \<Rightarrow> complete_chunk (now eng) c result
           | Some e \<Rightarrow> (complete_chunk (now eng) c result)\<lparr>status := CFailed, chunk_error := Some e\<rparr>)
      | RaisedRuntimeError e \<Rightarrow> c\<lparr>status := CFailed, chunk_error := Some e\<rparr>
      | RaisedOther e \<Rightarrow> c\<lparr>status := CFailed, chunk_error := Some e\<rparr>)"

text \<open>The \<open>for attempt in range(max_retries)\<close> loop of \<open>transcribe_chunk\<close>.\<close>

function attempt_loop :: "engine \<Rightarrow> chunk \<Rightarrow> path \<Rightarrow> int \<Rightarrow> nat \<Rightarrow> exn + chunk" where
  "attempt_loop eng c p max_retries attempt =
     (if int attempt < max_retries then
        (case model_transcribe eng p attempt of
           Returned result \<Rightarrow> Inr (complete_chunk (now eng) c result)
         | RaisedRuntimeError e \<Rightarrow>
             if is_oom e then
               (if int attempt = max_retries - 1 then
                  (if device eng \<noteq> ''cpu'' then Inr (transcribe_on_cpu eng c p)
                   else Inl OutOfMemoryError)
                else attempt_loop eng c p max_retries (attempt + 1))
             else Inl (TranscriptionError e)
         | RaisedOther e \<Rightarrow> Inl (OtherError e))
      else Inr (c\<lparr>status := CFailed, chunk_error := Some ''Max retries exceeded''\<rparr>))"
  by pat_completeness auto
termination
  by (relation "measure (\<lambda>(eng, c, p, max_retries, attempt). nat (max_retries - int attempt))") auto

declare attempt_loop.simps [simp del]

definition transcribe_chunk :: "engine \<Rightarrow> chunk \<Rightarrow> int \<Rightarrow> exn + chunk" where
  "transcribe_chunk eng c max_retries =
     (case file_path c of
        None \<Rightarrow> Inl (TranscriptionError ''Chunk file not found'')
      | Some p \<Rightarrow>
          if \<not> file_exists eng p then Inl (TranscriptionError ''Chunk file not found'')
          else (case load_model_error eng of
                  Some e \<Rightarrow> Inl (ModelLoadError e)
                | None \<Rightarrow> attempt_loop eng c p max_retries 0))"

text \<open>
  \<open>transcribe_all_chunks\<close>, with what an observer sees of it: the start of a chunk's
  transcription, the calls of the two callbacks and the cache reset between chunks.
\<close>

datatype event =
  EvTranscribe int | EvCheckpoint chunk | EvProgress nat nat | EvCleanup

text \<open>The \<open>for chunk in chunks\<close> loop; \<open>cp\<close> and \<open>pr\<close> say whether the checkpoint and the
  progress callback were given. The result is the trace, the chunks as the loop left them
  (a transcribed chunk is updated in place; after an exception the remaining chunks are
  as they were) and the exception that ended the loop, if any.\<close>

fun all_chunks_loop ::
  "engine \<Rightarrow> bool \<Rightarrow> bool \<Rightarrow> nat \<Rightarrow> nat \<Rightarrow> chunk list \<Rightarrow> event list \<times> chunk list \<times> exn option" where
  "all_chunks_loop eng pr cp total_n completed [] = ([], [], None)"
| "all_chunks_loop eng pr cp total_n completed (c # cs) =
     (if status c = CCompleted then
        (let (tr, cs', err) = all_chunks_loop eng pr cp total_n (completed + 1) cs
         in ((if pr then [EvProgress (completed + 1) total_n] else []) @ tr, c # cs', err))
      else
        (case transcribe_chunk eng c 3 of
           Inl e \<Rightarrow> ([EvTranscribe (index c)], c # cs, Some e)
         | Inr c' \<Rightarrow>
             (let (tr, cs', err) = all_chunks_loop eng pr cp total_n (completed + 1) cs
              in (EvTranscribe (index c) # (if cp then [EvCheckpoint c'] else []) @
                    (if pr then [EvProgress (completed + 1) total_n] else []) @ EvCleanup # tr,
                  c' # cs', err))))"

definition transcribe_all_chunks ::
  "engine \<Rightarrow> bool \<Rightarrow> bool \<Rightarrow> chunk list \<Rightarrow> event list \<times> chunk list \<times> exn option" where
  "transcribe_all_chunks eng pr cp cs =
     (case load_model_error eng of
        Some e \<Rightarrow> ([], cs, Some (ModelLoadError e))
      | None \<Rightarrow> all_chunks_loop eng pr cp (length cs) 0 cs)"

text \<open>The events that the loop can produce for the chunks \<open>xs\<close> when they are the
  chunks at positions \<open>lo\<close>, \<open>lo + 1\<close>, ... of a list of \<open>N\<close>: the start of the
  transcription of one of them, the checkpoint of the result of transcribing one of them
  that was not COMPLETED, a progress report \<open>(m, N)\<close> with \<open>lo < m \<le> lo + length xs\<close>, and
  the cache reset.\<close>

fun ev_of :: "engine \<Rightarrow> nat \<Rightarrow> chunk list \<Rightarrow> nat \<Rightarrow> event \<Rightarrow> bool" where
  "ev_of eng N xs lo (EvTranscribe j) = (j \<in> index ` set xs)"
| "ev_of eng N xs lo (EvCheckpoint c') =
     (\<exists>x\<in>set xs. status x \<noteq> CCompleted \<and> transcribe_chunk eng x 3 = Inr c')"
| "ev_of eng N xs lo (EvProgress m n) = (lo < m \<and> m \<le> lo + length xs \<and> n = N)"
| "ev_of eng N xs lo EvCleanup = True"

text \<open>A worker whose collaborators always answer the same way: every file exists, the
  model loads, the resident model answers \<open>g\<close> and the CPU model answers \<open>h\<close>.\<close>

definition constant_engine :: "string \<Rightarrow> model_outcome \<Rightarrow> model_outcome \<Rightarrow> engine" where
  "constant_engine d g h =
     \<lparr>device = d, file_exists = (\<lambda>p. True), load_model_error = None,
      model_transcribe = (\<lambda>p attempt. g), cpu_transcribe = (\<lambda>p. h),
      reload_model_error = None, now = 0\<rparr>"

section \<open>Orchestrator: resuming a job (src/bout/pipeline/orchestrator.py)\<close>

record job =
  job_id :: string
  video_path :: "path option"
  video_name :: string
  created_at :: datetime
  updated_at :: datetime
  duration_seconds :: real
  job_status :: job_status
  job_error :: "string option"
  audio_path :: "path option"
  job_chunks :: "chunk list"
  output_path :: "path option"
  transcription_text :: "string option"
  job_segments :: "transcription_segment list"

text \<open>The stages of the progress tracker; a run is observed through the stages the
  reporter was told to start.\<close>

datatype stage = EXTRACT | CHUNK | TRANSCRIBE | MERGE | DIARIZE | GENERATE

text \<open>The document writer is a collaborator: \<open>generate(video_name, text, segments,
  duration_seconds)\<close> returns the path of the document or raises.\<close>

type_synonym generator =
  "string \<Rightarrow> string option \<Rightarrow> transcription_segment list \<Rightarrow> real \<Rightarrow> exn + path"

text \<open>
  \<open>_resume_from_status\<close>. The result is the list of stages started, the job as the
  function left it, and the exception that ended it, if any. \<open>t\<close> is the clock read by
  the final \<open>save_job\<close>, which stamps \<open>updated_at\<close>.
\<close>

definition resume_transcribe :: "engine \<Rightarrow> job \<Rightarrow> stage list \<times> job \<times> exn option" where
  "resume_transcribe eng j =
     (if job_status j = TRANSCRIBING then
        (let (tr, cs, err) = transcribe_all_chunks eng True True (job_chunks j)
         in ([TRANSCRIBE], j\<lparr>job_chunks := cs\<rparr>, err))
      else ([], j, None))"

definition resume_merge :: "real \<Rightarrow> job \<Rightarrow> stage list \<times> job" where
  "resume_merge overlap_seconds j =
     (if job_status j = TRANSCRIBING \<or> job_status j = MERGING then
        (let (full_text, segs) = merge_chunks overlap_seconds (job_chunks j)
         in ([MERGE], j\<lparr>job_status := MERGING, transcription_text := Some full_text,
                        job_segments := segs\<rparr>))
      else ([], j))"

definition resume_generate :: "generator \<Rightarrow> job \<Rightarrow> stage list \<times> job \<times> exn option" where
  "resume_generate gen j =
     (if job_status j = TRANSCRIBING \<or> job_status j = MERGING \<or> job_status j = GENERATING then
        (case gen (video_name j) (transcription_text j) (job_segments j) (duration_seconds j) of
           Inl e \<Rightarrow> ([GENERATE], j\<lparr>job_status := GENERATING\<rparr>, Some e)
         | Inr p \<Rightarrow> ([GENERATE], j\<lparr>job_status := GENERATING, output_path := Some p\<rparr>, None))
      else ([], j, None))"

definition resume_from_status ::
  "engine \<Rightarrow> real \<Rightarrow> generator \<Rightarrow> datetime \<Rightarrow> job \<Rightarrow> stage list \<times> job \<times> exn option" where
  "resume_from_status eng overlap_seconds gen t j =
     (case resume_transcribe eng j of
        (st1, j1, Some e) \<Rightarrow> (st1, j1, Some e)
      | (st1, j1, None) \<Rightarrow>
          (case resume_merge overlap_seconds j1 of
             (st2, j2) \<Rightarrow>
               (case resume_generate gen j2 of
                  (st3, j3, Some e) \<Rightarrow> (st1 @ st2 @ st3, j3, Some e)
                | (st3, j3, None) \<Rightarrow>
                    (st1 @ st2 @ st3, j3\<lparr>job_status := COMPLETED, updated_at := t\<rparr>, None))))"

text \<open>\<open>str(e)\<close> for the exceptions of the model.\<close>

fun exn_message :: "exn \<Rightarrow> string" where
  "exn_message (TranscriptionError m) = m"
| "exn_message OutOfMemoryError = ''GPU memory exhausted during transcription''"
| "exn_message (ModelLoadError m) = m"
| "exn_message (BoutError m) = m"
| "exn_message (OtherError m) = m"

text \<open>\<open>resume\<close>: \<open>has_state\<close> says whether \<open>get_job_state\<close> finds the record. The result is
  the stages started, the job afterwards and either the exception raised or the returned
  output path.\<close>

definition resume ::
  "bool \<Rightarrow> engine \<Rightarrow> real \<Rightarrow> generator \<Rightarrow> datetime \<Rightarrow> job \<Rightarrow> stage list \<times> job \<times> (exn + path option)" where
  "resume has_state eng overlap_seconds gen t j =
     (if \<not> has_state then ([], j, Inl (BoutError ''Could not load state''))
      else
        (case resume_from_status eng overlap_seconds gen t j of
           (st, j', Some e) \<Rightarrow>
             (st, j'\<lparr>job_status := FAILED, job_error := Some (exn_message e), updated_at := t\<rparr>, Inl e)
         | (st, j', None) \<Rightarrow> (st, j', Inr (output_path j'))))"

section \<open>Checkpoint store (src/bout/state/models.py, src/bout/state/manager.py)\<close>

text \<open>\<open>JobState\<close>: the persisted form of a job, with times and status as strings.\<close>

record job_state =
  st_job_id :: string
  st_video_path :: string
  st_video_name :: string
  st_created_at :: string
  st_updated_at :: string
  st_duration_seconds :: real
  st_status :: string
  st_error :: "string option"
  st_audio_path :: "string option"
  st_chunks_dir :: "string option"
  st_chunk_config :: "(string \<times> int) list"
  st_chunks :: "chunk list"
  st_output_path :: "string option"
  st_transcription_text :: "string option"

text \<open>\<open>status.value\<close> and the constructor \<open>JobStatus(s)\<close>, which raises \<open>ValueError\<close> on any
  other string.\<close>

fun status_value :: "job_status \<Rightarrow> string" where
  "status_value PENDING = ''pending''"
| "status_value EXTRACTING = ''extracting''"
| "status_value CHUNKING = ''chunking''"
| "status_value TRANSCRIBING = ''transcribing''"
| "status_value MERGING = ''merging''"
| "status_value DIARIZING = ''diarizing''"
| "status_value GENERATING = ''generating''"
| "status_value COMPLETED = ''completed''"
| "status_value FAILED = ''failed''"
| "status_value CANCELLED = ''cancelled''"

definition JobStatus :: "string \<Rightarrow> job_status option" where
  "JobStatus s =
     (if s = ''pending'' then Some PENDING
      else if s = ''extracting'' then Some EXTRACTING
      else if s = ''chunking'' then Some CHUNKING
      else if s = ''transcribing'' then Some TRANSCRIBING
      else if s = ''merging'' then Some MERGING
      else if s = ''diarizing'' then Some DIARIZING
      else if s = ''generating'' then Some GENERATING
      else if s = ''completed'' then Some COMPLETED
      else if s = ''failed'' then Some FAILED
      else if s = ''cancelled'' then Some CANCELLED
      else None)"

text \<open>
  What the state manager takes from outside: the ISO format of a \<open>datetime\<close> and its
  parser (\<open>None\<close> where \<open>fromisoformat\<close> raises), the JSON text of a state
  (\<open>json.dump(state.to_dict())\<close>), its parser (\<open>json.load\<close> followed by
  \<open>JobState.from_dict\<close> and, for the chunks, \<open>Chunk.from_dict\<close>; \<open>None\<close> where any of them
  raises) and the chunk configuration of \<open>get_config()\<close>.
\<close>

record manager =
  isoformat :: "datetime \<Rightarrow> string"
  fromisoformat :: "string \<Rightarrow> datetime option"
  json_dump :: "job_state \<Rightarrow> string"
  json_load :: "string \<Rightarrow> job_state option"
  chunk_config :: chunker

definition from_job :: "manager \<Rightarrow> job \<Rightarrow> path option \<Rightarrow> job_state" where
  "from_job m j chunks_dir =
     \<lparr>st_job_id = job_id j,
      st_video_path = (case video_path j of None \<Rightarrow> [] | Some p \<Rightarrow> p),
      st_video_name = video_name j,
      st_created_at = isoformat m (created_at j),
      st_updated_at = isoformat m (updated_at j),
      st_duration_seconds = duration_seconds j,
      st_status = status_value (job_status j),
      st_error = job_error j,
      st_audio_path = audio_path j,
      st_chunks_dir = chunks_dir,
      st_chunk_config = [(''duration_seconds'', chunk_duration (chunk_config m)),
                         (''overlap_seconds'', overlap (chunk_config m))],
      st_chunks = job_chunks j,
      st_output_path = output_path j,
      st_transcription_text = transcription_text j\<rparr>"

text \<open>\<open>Path(s) if s else None\<close>.\<close>

definition path_if :: "string option \<Rightarrow> path option" where
  "path_if s = (case s of None \<Rightarrow> None | Some p \<Rightarrow> if p = [] then None else Some p)"

text \<open>\<open>to_job\<close>; \<open>None\<close> where it raises (a time or a status that does not parse).\<close>

definition to_job :: "manager \<Rightarrow> job_state \<Rightarrow> job option" where
  "to_job m s =
     (case (fromisoformat m (st_created_at s), fromisoformat m (st_updated_at s),
            JobStatus (st_status s)) of
        (Some c, Some u, Some status_v) \<Rightarrow>
          Some \<lparr>job_id = st_job_id s,
                video_path = path_if (Some (st_video_path s)),
                video_name = st_video_name s,
                created_at = c,
                updated_at = u,
                duration_seconds = st_duration_seconds s,
                job_status = status_v,
                job_error = st_error s,
                audio_path = path_if (st_audio_path s),
                job_chunks = st_chunks s,
                output_path = path_if (st_output_path s),
                transcription_text = st_transcription_text s,
                job_segments = []\<rparr>
      | _ \<Rightarrow> None)"

text \<open>
  The jobs directory: the file \<open>jobs/<stem>.json\<close>, if it exists, has a modification
  time and a text. \<open>open(job_file, "w")\<close> creates the file or truncates it to the empty
  text, and \<open>json.dump\<close> then writes the document into it. The write completes, or
  \<open>open\<close> fails and the directory stays as it was, or the write stops (an exception, or
  the end of the process) when \<open>n\<close> characters of the document are in the file.
\<close>

record job_file =
  mtime :: real
  content :: string

type_synonym disk = "string \<rightharpoonup> job_file"

datatype io = Written | OpenFailed | Stopped nat

record clock =
  now_datetime :: datetime
  now_time :: real

fun write_text :: "disk \<Rightarrow> real \<Rightarrow> string \<Rightarrow> string \<Rightarrow> io \<Rightarrow> disk" where
  "write_text d t stem txt Written = d(stem \<mapsto> \<lparr>mtime = t, content = txt\<rparr>)"
| "write_text d t stem txt OpenFailed = d"
| "write_text d t stem txt (Stopped n) = d(stem \<mapsto> \<lparr>mtime = t, content = take n txt\<rparr>)"

text \<open>\<open>save_job\<close>: the directory afterwards and the job with its new \<open>updated_at\<close>. An
  exception of the write is caught and logged.\<close>

definition save_job :: "manager \<Rightarrow> clock \<Rightarrow> io \<Rightarrow> disk \<Rightarrow> job \<Rightarrow> path option \<Rightarrow> disk \<times> job" where
  "save_job m clk w d j chunks_dir =
     (let j' = j\<lparr>updated_at := now_datetime clk\<rparr>;
          state = from_job m j' chunks_dir
      in (write_text d (now_time clk) (job_id j') (json_dump m state) w, j'))"

definition load_job :: "manager \<Rightarrow> disk \<Rightarrow> string \<Rightarrow> job option" where
  "load_job m d stem =
     (case d stem of
        None \<Rightarrow> None
      | Some f \<Rightarrow>
          (case json_load m (content f) of
             None \<Rightarrow> None
           | Some state \<Rightarrow> to_job m state))"

definition delete_job :: "disk \<Rightarrow> string \<Rightarrow> disk \<times> bool" where
  "delete_job d stem = (if d stem \<noteq> None then (d(stem := None), True) else (d, False))"

text \<open>The loop of \<open>save_chunk_result\<close>: the first chunk with the index of the new one is
  replaced.\<close>

fun replace_chunk :: "chunk \<Rightarrow> chunk list \<Rightarrow> chunk list" where
  "replace_chunk new [] = []"
| "replace_chunk new (c # cs) =
     (if index c = index new then new # cs else c # replace_chunk new cs)"

definition save_chunk_result :: "manager \<Rightarrow> clock \<Rightarrow> io \<Rightarrow> disk \<Rightarrow> string \<Rightarrow> chunk \<Rightarrow> disk" where
  "save_chunk_result m clk w d stem new =
     (case load_job m d stem of
        None \<Rightarrow> d
      | Some j \<Rightarrow> fst (save_job m clk w d (j\<lparr>job_chunks := replace_chunk new (job_chunks j)\<rparr>) None))"

text \<open>
  \<open>cleanup_old_jobs\<close>, over the files that \<open>glob("*.json")\<close> lists. A listed file that is
  gone when its turn comes makes \<open>stat\<close> raise, which the loop catches. The result is
  the directory afterwards and the count.
\<close>

fun cleanup_loop :: "manager \<Rightarrow> real \<Rightarrow> int \<Rightarrow> bool \<Rightarrow> disk \<Rightarrow> string list \<Rightarrow> disk \<times> nat" where
  "cleanup_loop m t max_age_seconds dry_run d [] = (d, 0)"
| "cleanup_loop m t max_age_seconds dry_run d (stem # stems) =
     (case d stem of
        None \<Rightarrow> cleanup_loop m t max_age_seconds dry_run d stems
      | Some f \<Rightarrow>
          if t - mtime f > of_int max_age_seconds then
            (case load_job m d stem of
               None \<Rightarrow> cleanup_loop m t max_age_seconds dry_run d stems
             | Some j \<Rightarrow>
                 if job_status j = COMPLETED \<or> job_status j = FAILED then
                   (let d' = (if \<not> dry_run then fst (delete_job d (job_id j)) else d);
                        (d'', cleaned) = cleanup_loop m t max_age_seconds dry_run d' stems
                    in (d'', cleaned + 1))
                 else cleanup_loop m t max_age_seconds dry_run d stems)
          else cleanup_loop m t max_age_seconds dry_run d stems)"

definition cleanup_old_jobs ::
  "manager \<Rightarrow> real \<Rightarrow> int \<Rightarrow> bool \<Rightarrow> disk \<Rightarrow> string list \<Rightarrow> disk \<times> nat" where
  "cleanup_old_jobs m t max_age_seconds dry_run d listing =
     cleanup_loop m t max_age_seconds dry_run d listing"

text \<open>The records \<open>cleanup_old_jobs\<close> acts on: older than the limit, loadable, and
  COMPLETED or FAILED.\<close>

definition cleanable :: "manager \<Rightarrow> real \<Rightarrow> int \<Rightarrow> disk \<Rightarrow> string \<Rightarrow> bool" where
  "cleanable m t max_age_seconds d stem =
     (case d stem of
        None \<Rightarrow> False
      | Some f \<Rightarrow>
          t - mtime f > of_int max_age_seconds \<and>
          (case load_job m d stem of
             None \<Rightarrow> False
           | Some j \<Rightarrow> job_status j = COMPLETED \<or> job_status j = FAILED))"

text \<open>A stand-in for the JSON text, for runs on concrete records: the document of a state
  is its job id, a colon and its status, and parsing gives back a state with these two
  fields.\<close>

definition sample_state :: "string \<Rightarrow> string \<Rightarrow> job_state" where
  "sample_state i s =
     \<lparr>st_job_id = i, st_video_path = ''v.mp4'', st_video_name = ''v.mp4'',
      st_created_at = ''0'', st_updated_at = ''0'', st_duration_seconds = 600,
      st_status = s, st_error = None, st_audio_path = None, st_chunks_dir = Some ''temp'',
      st_chunk_config = [], st_chunks = [Chunk 0 0 300 0, Chunk 1 290 600 10],
      st_output_path = None, st_transcription_text = None\<rparr>"

definition sample_manager :: manager where
  "sample_manager =
     \<lparr>isoformat = (\<lambda>t. ''0''),
      fromisoformat = (\<lambda>s. if s = ''0'' then Some 0 else None),
      json_dump = (\<lambda>s. st_job_id s @ '':'' @ st_status s),
      json_load = (\<lambda>txt. if CHR '':'' \<in> set txt
         then Some (sample_state (takeWhile (\<lambda>c. c \<noteq> CHR '':'') txt)
                      (tl (dropWhile (\<lambda>c. c \<noteq> CHR '':'') txt)))
         else None),
      chunk_config = \<lparr>chunk_duration = 300, overlap = 10, min_chunk = 30\<rparr>\<rparr>"

definition sample_disk :: disk where
  "sample_disk =
     [''a'' \<mapsto> \<lparr>mtime = 0, content = ''a:completed''\<rparr>,
      ''b'' \<mapsto> \<lparr>mtime = 0, content = ''b:cancelled''\<rparr>,
      ''c'' \<mapsto> \<lparr>mtime = 95, content = ''c:failed''\<rparr>,
      ''j1'' \<mapsto> \<lparr>mtime = 90, content = ''j1:transcribing''\<rparr>]"

text \<open>A second stand-in for the JSON text, whose document also shows the chunks directory
  of the state: job id, status and chunks directory (\<open>null\<close> for \<open>None\<close>), separated by
  colons.\<close>

definition dir_dump :: "job_state \<Rightarrow> string" where
  "dir_dump s =
     st_job_id s @ '':'' @ st_status s @ '':'' @
       (case st_chunks_dir s of None \<Rightarrow> ''null'' | Some p \<Rightarrow> p)"

definition dir_load :: "string \<Rightarrow> job_state option" where
  "dir_load txt =
     (let rest = tl (dropWhile (\<lambda>c. c \<noteq> CHR '':'') txt);
          dir = tl (dropWhile (\<lambda>c. c \<noteq> CHR '':'') rest)
      in if CHR '':'' \<in> set txt \<and> CHR '':'' \<in> set rest
         then Some ((sample_state (takeWhile (\<lambda>c. c \<noteq> CHR '':'') txt)
                       (takeWhile (\<lambda>c. c \<noteq> CHR '':'') rest))
                     \<lparr>st_chunks_dir := (if dir = ''null'' then None else Some dir)\<rparr>)
         else None)"

definition dir_manager :: manager where
  "dir_manager = sample_manager\<lparr>json_dump := dir_dump, json_load := dir_load\<rparr>"

definition dir_disk :: disk where
  "dir_disk = [''j1'' \<mapsto> \<lparr>mtime = 90, content = ''j1:transcribing:temp''\<rparr>]"

section \<open>The model stub of the end-to-end scenario\<close>

text \<open>
  Scenario 2 of the specification runs the pipeline on a 600 second recording with a
  stub for the model that returns, for the file of chunk \<open>k\<close> spanning \<open>[a, b]\<close>, the
  single segment \<open>(0, b - a, T_k)\<close>. The plan is \<open>[0, 300]\<close> and \<open>[290, 600]\<close>; the
  splitter names the files \<open>chunk_000.wav\<close> and \<open>chunk_001.wav\<close>.
\<close>

definition stub_result :: "real \<Rightarrow> real \<Rightarrow> string \<Rightarrow> model_outcome" where
  "stub_result a b t =
     Returned \<lparr>r_text = Some t,
               r_segments = Some [\<lparr>m_start = 0, m_end = b - a, m_text = t\<rparr>]\<rparr>"

definition stub_engine :: engine where
  "stub_engine =
     \<lparr>device = ''cuda'',
      file_exists = (\<lambda>p. True),
      load_model_error = None,
      model_transcribe = (\<lambda>p attempt.
         if p = ''chunk_000.wav'' then stub_result 0 300 ''T_0''
         else stub_result 290 600 ''T_1''),
      cpu_transcribe = (\<lambda>p. RaisedOther ''unused''),
      reload_model_error = None,
      now = 0\<rparr>"

definition split_plan :: "chunk list" where
  "split_plan =
     [(Chunk 0 0 300 0)\<lparr>file_path := Some ''chunk_000.wav''\<rparr>,
      (Chunk 1 290 600 10)\<lparr>file_path := Some ''chunk_001.wav''\<rparr>]"

definition segment :: "real \<Rightarrow> real \<Rightarrow> string \<Rightarrow> transcription_segment" where
  "segment s e t = \<lparr>seg_start = s, seg_end = e, seg_text = t, speaker = None\<rparr>"

text \<open>A worker for which the resident model runs out of memory on the first chunk file on
  every attempt and the CPU model then fails with another error, while the second chunk
  file is transcribed as by the stub; a job persisted in TRANSCRIBING over the two-chunk
  plan; and a document writer that succeeds.\<close>

definition failing_engine :: engine where
  "failing_engine =
     \<lparr>device = ''cuda'',
      file_exists = (\<lambda>p. True),
      load_model_error = None,
      model_transcribe = (\<lambda>p attempt.
         if p = ''chunk_000.wav'' then RaisedRuntimeError ''CUDA out of memory''
         else stub_result 290 600 ''T_1''),
      cpu_transcribe = (\<lambda>p. RaisedRuntimeError ''decoder failed''),
      reload_model_error = None,
      now = 0\<rparr>"

definition sample_job :: job where
  "sample_job =
     \<lparr>job_id = ''j1'', video_path = Some ''v.mp4'', video_name = ''v.mp4'',
      created_at = 0, updated_at = 0, duration_seconds = 600, job_status = TRANSCRIBING,
      job_error = None, audio_path = Some ''v_audio.wav'', job_chunks = split_plan,
      output_path = None, transcription_text = None, job_segments = []\<rparr>"

definition sample_generator :: generator where
  "sample_generator name txt segs duration = Inr ''out.docx''"

text \<open>Two FAILED chunks that carry text: each has one segment inside its own part of the
  recording and one inside the overlap with its neighbour.\<close>

definition failed_chunks :: "chunk list" where
  "failed_chunks =
     [(Chunk 0 0 300 0)\<lparr>status := CFailed, chunk_text := Some ''a dup'',
        segments := [segment 0 100 ''a'', segment 295 300 ''dup'']\<rparr>,
      (Chunk 1 290 600 10)\<lparr>status := CFailed, chunk_text := Some ''dup b'',
        segments := [segment 290 295 ''dup'', segment 400 500 ''b'']\<rparr>]"

section \<open>Closed form of the plan (used to state the loop invariant)\<close>

text \<open>The chunk appended by the \<open>k\<close>-th iteration of the loop, the condition under which
  iterations \<open>0..n-1\<close> all append a chunk, and the list the loop returns after \<open>m\<close> appends.\<close>

definition planned :: "chunker \<Rightarrow> real \<Rightarrow> nat \<Rightarrow> chunk" where
  "planned ck duration k =
     Chunk (int k) (of_int (int k * (chunk_duration ck - overlap ck)))
       (min (of_int (int k * (chunk_duration ck - overlap ck)) + of_int (chunk_duration ck)) duration)
       (if k > 0 then of_int (overlap ck) else 0)"

definition reached :: "chunker \<Rightarrow> real \<Rightarrow> nat \<Rightarrow> bool" where
  "reached ck duration n \<longleftrightarrow>
     (\<forall>k<n. of_int (int k * (chunk_duration ck - overlap ck)) < duration \<and>
        (k > 0 \<longrightarrow> of_int (min_chunk ck) \<le> duration - of_int (int k * (chunk_duration ck - overlap ck))))"

definition final_plan :: "chunker \<Rightarrow> real \<Rightarrow> nat \<Rightarrow> chunk list" where
  "final_plan ck d m = map (planned ck d) [0..<m - 1] @ [(planned ck d (m - 1))\<lparr>end_time := d\<rparr>]"

section \<open>The chunk planner\<close>

lemma reached_Suc:
  "reached ck d (Suc n) \<longleftrightarrow> reached ck d n \<and>
     of_int (int n * (chunk_duration ck - overlap ck)) < d \<and>
     (n > 0 \<longrightarrow> of_int (min_chunk ck) \<le> d - of_int (int n * (chunk_duration ck - overlap ck)))"
  by (auto simp: reached_def less_Suc_eq)

lemma steps_bound:
  fixes d :: real and s :: int
  assumes "0 < s" "of_int (int n * s) < d"
  shows "n < nat \<lceil>d / of_int s\<rceil>"
proof -
  have "real n * real_of_int s < d" using assms by simp
  then have "real n < d / real_of_int s" using assms(1) by (simp add: pos_less_divide_eq)
  also have "\<dots> \<le> real_of_int \<lceil>d / real_of_int s\<rceil>" by simp
  finally have "int n < \<lceil>d / real_of_int s\<rceil>" by linarith
  then show ?thesis by simp
qed

lemma planned_last_end:
  assumes "0 \<le> overlap ck" "0 < n" "\<not> of_int (int n * (chunk_duration ck - overlap ck)) < d"
  shows "(planned ck d (n - 1))\<lparr>end_time := d\<rparr> = planned ck d (n - 1)"
proof -
  obtain j where n: "n = Suc j" using assms(2) by (cases n) auto
  have "d \<le> of_int (int (Suc j) * (chunk_duration ck - overlap ck))" using assms(3) n by simp
  also have "\<dots> \<le> of_int (int j * (chunk_duration ck - overlap ck)) + real_of_int (chunk_duration ck)"
    using assms(1) by (simp add: algebra_simps)
  finally show ?thesis using n by (simp add: planned_def Chunk_def min_def)
qed

lemma extend_last_snoc: "extend_last (xs @ [x]) d = Inr (xs @ [x\<lparr>end_time := d\<rparr>])"
proof -
  obtain y ys where "xs @ [x] = y # ys" by (cases "xs @ [x]") auto
  moreover have "butlast (xs @ [x]) = xs" "last (xs @ [x]) = x" by simp_all
  ultimately show ?thesis unfolding extend_last_def by (metis list.simps(5))
qed

lemma extend_last_planned:
  "0 < n \<Longrightarrow> extend_last (map f [0..<n]) d = Inr (map f [0..<n - 1] @ [(f (n - 1))\<lparr>end_time := d\<rparr>])"
  using extend_last_snoc[of "map f [0..<n - 1]" "f (n - 1)" d] by (cases n) auto

lemma calc_loop_exit: "\<not> st < d \<Longrightarrow> calc_loop ck d cs st idx = Some (Inr cs)"
  by (subst calc_loop.simps) simp

lemma calc_loop_break:
  "st < d \<Longrightarrow> d - st < of_int (min_chunk ck) \<Longrightarrow> 0 < idx \<Longrightarrow>
   calc_loop ck d cs st idx = Some (extend_last cs d)"
  by (subst calc_loop.simps) simp

lemma calc_loop_continue:
  "st < d \<Longrightarrow> \<not> (d - st < of_int (min_chunk ck) \<and> 0 < idx) \<Longrightarrow>
   calc_loop ck d cs st idx =
   calc_loop ck d (cs @ [Chunk idx st (min (st + of_int (chunk_duration ck)) d)
                          (if idx > 0 then of_int (overlap ck) else 0)])
             (st + of_int (chunk_duration ck - overlap ck)) (idx + 1)"
  by (subst calc_loop.simps) auto

lemma calc_loop_result:
  assumes step: "0 \<le> overlap ck" "overlap ck < chunk_duration ck"
    and d: "0 < d"
  shows "reached ck d n \<Longrightarrow>
     \<exists>m. 0 < m \<and> n \<le> m \<and> reached ck d m \<and>
       calc_loop ck d (map (planned ck d) [0..<n]) (of_int (int n * (chunk_duration ck - overlap ck))) (int n)
         = Some (Inr (map (planned ck d) [0..<m - 1] @ [(planned ck d (m - 1))\<lparr>end_time := d\<rparr>]))"
proof (induction n rule: measure_induct_rule[of "\<lambda>n. nat \<lceil>d / of_int (chunk_duration ck - overlap ck)\<rceil> - n"])
  case (less n)
  let ?s = "chunk_duration ck - overlap ck"
  let ?st = "real_of_int (int n * ?s)"
  let ?cs = "map (planned ck d) [0..<n]"
  have s: "0 < ?s" using step by simp
  show ?case
  proof (cases "?st < d")
    case False
    then have n: "0 < n" using d by (cases n) auto
    have "calc_loop ck d ?cs ?st (int n) = Some (Inr ?cs)"
      using False by (rule calc_loop_exit)
    moreover have "?cs = map (planned ck d) [0..<n - 1] @ [(planned ck d (n - 1))\<lparr>end_time := d\<rparr>]"
      using n planned_last_end[OF step(1) n False] by (cases n) auto
    ultimately show ?thesis using n less(2) by (intro exI[of _ n]) simp
  next
    case True
    show ?thesis
    proof (cases "d - ?st < of_int (min_chunk ck) \<and> 0 < n")
      case brk: True
      have "calc_loop ck d ?cs ?st (int n) = Some (extend_last ?cs d)"
        using True brk by (intro calc_loop_break) simp_all
      then show ?thesis using brk less(2) by (intro exI[of _ n]) (simp add: extend_last_planned)
    next
      case cont: False
      have r: "reached ck d (Suc n)" using less(2) True cont by (auto simp: reached_Suc)
      have "n < nat \<lceil>d / of_int ?s\<rceil>" using steps_bound[OF s True] .
      then have "nat \<lceil>d / of_int ?s\<rceil> - Suc n < nat \<lceil>d / of_int ?s\<rceil> - n" by simp
      from less(1)[OF this r] obtain m where m: "0 < m" "Suc n \<le> m" "reached ck d m"
        "calc_loop ck d (map (planned ck d) [0..<Suc n]) (of_int (int (Suc n) * ?s)) (int (Suc n))
          = Some (Inr (map (planned ck d) [0..<m - 1] @ [(planned ck d (m - 1))\<lparr>end_time := d\<rparr>]))" by blast
      have app: "?cs @ [Chunk (int n) ?st (min (?st + of_int (chunk_duration ck)) d)
                 (if int n > 0 then of_int (overlap ck) else 0)] = map (planned ck d) [0..<Suc n]"
        by (simp add: planned_def)
      have st: "?st + of_int ?s = of_int (int (Suc n) * ?s)" by (simp add: algebra_simps)
      have i: "int n + 1 = int (Suc n)" by simp
      have c: "\<not> (d - ?st < of_int (min_chunk ck) \<and> 0 < int n)" using cont by simp
      have "calc_loop ck d ?cs ?st (int n) =
            calc_loop ck d (map (planned ck d) [0..<Suc n]) (of_int (int (Suc n) * ?s)) (int (Suc n))"
        using calc_loop_continue[OF True c, of ?cs] unfolding app st i .
      then show ?thesis using m by (intro exI[of _ m]) simp
    qed
  qed
qed


lemma length_final_plan: "0 < m \<Longrightarrow> length (final_plan ck d m) = m"
  by (simp add: final_plan_def)

lemma final_plan_nth:
  "k < m \<Longrightarrow> final_plan ck d m ! k =
     (if k = m - 1 then (planned ck d k)\<lparr>end_time := d\<rparr> else planned ck d k)"
  by (auto simp: final_plan_def nth_append)

lemma final_plan_index: "0 < m \<Longrightarrow> map index (final_plan ck d m) = map int [0..<m]"
  by (rule nth_equalityI) (auto simp: length_final_plan final_plan_nth planned_def Chunk_def)

lemma final_plan_ends:
  "0 < m \<Longrightarrow> final_plan ck d m \<noteq> [] \<and> start_time (hd (final_plan ck d m)) = 0 \<and>
     end_time (last (final_plan ck d m)) = d"
  by (cases "m - 1") (auto simp: final_plan_def planned_def Chunk_def hd_append hd_map upt_conv_Cons)

lemma final_plan_start:
  "k < m \<Longrightarrow> start_time (final_plan ck d m ! k) = of_int (int k * (chunk_duration ck - overlap ck))"
  by (simp add: final_plan_nth planned_def Chunk_def)

lemma final_plan_end:
  "Suc k < m \<Longrightarrow> end_time (final_plan ck d m ! k) =
     min (of_int (int k * (chunk_duration ck - overlap ck)) + of_int (chunk_duration ck)) d"
proof -
  assume "Suc k < m"
  then have "k < m" "k \<noteq> m - 1" by auto
  then show ?thesis by (simp only: final_plan_nth if_False) (simp add: planned_def Chunk_def)
qed

lemma final_plan_end_last: "m = Suc k \<Longrightarrow> end_time (final_plan ck d m ! k) = d"
  by (simp add: final_plan_nth)

lemma final_plan_step:
  assumes "0 \<le> overlap ck" "reached ck d m" "Suc k < m"
  shows "start_time (final_plan ck d m ! Suc k) =
           start_time (final_plan ck d m ! k) + of_int (chunk_duration ck - overlap ck)"
    and "start_time (final_plan ck d m ! Suc k) \<le> end_time (final_plan ck d m ! k)"
proof -
  let ?s = "chunk_duration ck - overlap ck"
  have k: "k < m" using assms(3) by auto
  have eq: "real_of_int (int (Suc k) * ?s) = real_of_int (int k * ?s) + real_of_int ?s"
    by (simp add: algebra_simps)
  show "start_time (final_plan ck d m ! Suc k) =
           start_time (final_plan ck d m ! k) + of_int ?s"
    unfolding final_plan_start[OF assms(3)] final_plan_start[OF k] by (rule eq)
  have "real_of_int (int (Suc k) * ?s) < d"
    using assms(2,3) by (auto simp: reached_def)
  moreover have "real_of_int (int (Suc k) * ?s) \<le> real_of_int (int k * ?s) + real_of_int (chunk_duration ck)"
    unfolding eq using assms(1) by simp
  ultimately show "start_time (final_plan ck d m ! Suc k) \<le> end_time (final_plan ck d m ! k)"
    unfolding final_plan_start[OF assms(3)] final_plan_end[OF assms(3)] by simp
qed

lemma final_plan_overlap:
  "k < m \<Longrightarrow> overlap_start (final_plan ck d m ! k) = (if k = 0 then 0 else of_int (overlap ck))"
  by (simp add: final_plan_nth planned_def Chunk_def)

lemma final_plan_min_length:
  assumes "reached ck d m" "k < m" "of_int (chunk_duration ck) \<le> d"
  shows "of_int (min (min_chunk ck) (chunk_duration ck)) \<le>
           end_time (final_plan ck d m ! k) - start_time (final_plan ck d m ! k)"
proof -
  let ?st = "real_of_int (int k * (chunk_duration ck - overlap ck))"
  have rem: "of_int (min (min_chunk ck) (chunk_duration ck)) \<le> d - ?st"
  proof (cases "k = 0")
    case True
    then show ?thesis using assms(3) by (simp add: min_def)
  next
    case False
    then have "of_int (min_chunk ck) \<le> d - ?st" using assms(1,2) by (auto simp: reached_def)
    then show ?thesis by (simp add: min_def)
  qed
  have cd: "of_int (min (min_chunk ck) (chunk_duration ck)) \<le> (?st + of_int (chunk_duration ck)) - ?st"
    by (simp add: min_def)
  show ?thesis
  proof (cases "Suc k < m")
    case True
    show ?thesis unfolding final_plan_start[OF assms(2)] final_plan_end[OF True]
      using rem cd by (simp add: min_def del: of_int_mult)
  next
    case False
    then have "m = Suc k" using assms(2) by simp
    then show ?thesis unfolding final_plan_start[OF assms(2)] final_plan_end_last[OF \<open>m = Suc k\<close>]
      using rem by simp
  qed
qed


text \<open>
  C4 (as amended). For every \<open>duration \<ge> 0\<close> and parameters with
  \<open>0 \<le> overlap < chunk_duration\<close> and \<open>min_chunk > 0\<close>, \<open>calculate_chunks\<close> returns a plan.
  When \<open>duration > 0\<close> the plan is not empty, starts at 0 and ends at \<open>duration\<close>; its
  indices are \<open>0..N-1\<close> in increasing order; consecutive start times differ by exactly
  \<open>chunk_duration - overlap\<close> and each chunk starts no later than its predecessor ends;
  \<open>overlap_start\<close> is 0 for index 0 and \<open>overlap\<close> for every later index; and unless
  \<open>duration < chunk_duration\<close>, every chunk is at least \<open>min (min_chunk, chunk_duration)\<close>
  long, which is \<open>min_chunk\<close> whenever \<open>min_chunk \<le> chunk_duration\<close>.
\<close>

theorem calculate_chunks_plan:
  assumes "0 \<le> overlap ck" "overlap ck < chunk_duration ck" "0 < min_chunk ck" "0 \<le> duration"
  shows "\<exists>cs. calculate_chunks ck duration = Some (Inr cs) \<and>
     (0 < duration \<longrightarrow> cs \<noteq> [] \<and> start_time (hd cs) = 0 \<and> end_time (last cs) = duration) \<and>
     map index cs = map int [0..<length cs] \<and>
     (\<forall>k. Suc k < length cs \<longrightarrow>
        start_time (cs ! Suc k) = start_time (cs ! k) + of_int (chunk_duration ck - overlap ck) \<and>
        start_time (cs ! Suc k) \<le> end_time (cs ! k)) \<and>
     (\<forall>k<length cs. overlap_start (cs ! k) = (if k = 0 then 0 else of_int (overlap ck))) \<and>
     (of_int (chunk_duration ck) \<le> duration \<longrightarrow>
        (\<forall>c\<in>set cs. of_int (min (min_chunk ck) (chunk_duration ck)) \<le> end_time c - start_time c))"
proof -
  consider "duration = 0" | "0 < duration" "duration \<le> of_int (chunk_duration ck)"
    | "of_int (chunk_duration ck) < duration" "0 < duration"
    using assms(4) by fastforce
  then show ?thesis
  proof cases
    case 1
    then show ?thesis using assms(1,2) by (simp add: calculate_chunks_def)
  next
    case 2
    then show ?thesis by (simp add: calculate_chunks_def Chunk_def min_def)
  next
    case 3
    have "reached ck duration 0" by (simp add: reached_def)
    from calc_loop_result[OF assms(1,2) 3(2) this] obtain m where
      m: "0 < m" "reached ck duration m" and
      run: "calc_loop ck duration [] 0 0 = Some (Inr (final_plan ck duration m))"
      by (auto simp: final_plan_def)
    let ?cs = "final_plan ck duration m"
    have len: "length ?cs = m" using m(1) by (rule length_final_plan)
    have "calculate_chunks ck duration = Some (Inr ?cs)"
      using 3 run by (simp add: calculate_chunks_def)
    moreover have "?cs \<noteq> [] \<and> start_time (hd ?cs) = 0 \<and> end_time (last ?cs) = duration"
      using m(1) by (rule final_plan_ends)
    moreover have "map index ?cs = map int [0..<length ?cs]"
      using final_plan_index[OF m(1)] len by simp
    moreover have "\<forall>k. Suc k < length ?cs \<longrightarrow>
        start_time (?cs ! Suc k) = start_time (?cs ! k) + of_int (chunk_duration ck - overlap ck) \<and>
        start_time (?cs ! Suc k) \<le> end_time (?cs ! k)"
      using final_plan_step[OF assms(1) m(2)] len by simp
    moreover have "\<forall>k<length ?cs. overlap_start (?cs ! k) = (if k = 0 then 0 else of_int (overlap ck))"
      using final_plan_overlap len by simp
    moreover have "\<forall>c\<in>set ?cs. of_int (min (min_chunk ck) (chunk_duration ck)) \<le> end_time c - start_time c"
    proof
      fix c assume "c \<in> set ?cs"
      then obtain k where "k < m" "c = ?cs ! k" using len by (metis in_set_conv_nth)
      then show "of_int (min (min_chunk ck) (chunk_duration ck)) \<le> end_time c - start_time c"
        using final_plan_min_length[OF m(2), of k] 3(1) by simp
    qed
    ultimately show ?thesis by blast
  qed
qed

theorem calculate_chunks_plan_witness:
  "(0::int) \<le> 10 \<and> (10::int) < 300 \<and> (0::int) < 30 \<and> (0::real) \<le> 905 \<and>
   (\<exists>cs. calculate_chunks \<lparr>chunk_duration = 300, overlap = 10, min_chunk = 30\<rparr> 905 = Some (Inr cs) \<and>
      cs \<noteq> [] \<and> start_time (hd cs) = 0 \<and> end_time (last cs) = 905 \<and>
      map index cs = map int [0..<length cs] \<and>
      (\<forall>c\<in>set cs. 30 \<le> end_time c - start_time c))"
  using calculate_chunks_plan [of "\<lparr>chunk_duration = 300, overlap = 10, min_chunk = 30\<rparr>" 905]
  by simp blast

text \<open>
  C4 as stated fails when \<open>min_chunk > chunk_duration\<close>: with \<open>chunk_duration = 10\<close>,
  \<open>overlap = 0\<close>, \<open>min_chunk = 30\<close> and \<open>duration = 25\<close> the plan is the single chunk
  \<open>[0, 25]\<close>, shorter than \<open>min_chunk\<close> although the duration is not smaller than
  \<open>chunk_duration\<close>.
\<close>

theorem calculate_chunks_min_chunk_counterexample:
  "(0::int) \<le> 0 \<and> (0::int) < 10 \<and> (0::int) < 30 \<and> (0::real) \<le> 25 \<and> \<not> (25::real) < 10 \<and>
   calculate_chunks \<lparr>chunk_duration = 10, overlap = 0, min_chunk = 30\<rparr> 25 = Some (Inr [Chunk 0 0 25 0]) \<and>
   \<not> (30 \<le> end_time (Chunk 0 0 25 0) - start_time (Chunk 0 0 25 0))"
  by (simp add: calculate_chunks_def calc_loop.simps extend_last_def Chunk_def)
section \<open>The chunk merger\<close>

lemma kept_segments_subset: "set (kept_segments ov n i c) \<subseteq> set (segments c)"
  by (auto simp: kept_segments_def filter_segments_first_chunk_def filter_segments_last_chunk_def
      filter_segments_middle_chunk_def Let_def)

lemma merge_chunks_subset:
  "set (snd (merge_chunks ov cs)) \<subseteq>
     (\<Union>c\<in>{c \<in> set cs. chunk_text c \<noteq> None}. set (segments c))"
proof -
  define completed where "completed = filter (\<lambda>c. chunk_text c \<noteq> None) (sort_key index cs)"
  define texted where "texted = {c \<in> set cs. chunk_text c \<noteq> None}"
  have sub: "set completed \<subseteq> texted" by (auto simp: completed_def texted_def)
  have "set (snd (merge_chunks ov cs)) \<subseteq> (\<Union>c\<in>texted. set (segments c))"
  proof (cases "cs = [] \<or> completed = []")
    case True
    then show ?thesis unfolding completed_def by (auto simp: merge_chunks_def Let_def)
  next
    case ne: False
    show ?thesis
    proof (cases "length completed = 1")
      case True
      then have "hd completed \<in> set completed" using ne by (intro hd_in_set) simp
      then have "hd completed \<in> texted" using sub by blast
      moreover have "snd (merge_chunks ov cs) = segments (hd completed)"
        using ne True unfolding completed_def by (simp add: merge_chunks_def Let_def)
      ultimately show ?thesis by auto
    next
      case False
      have eq: "snd (merge_chunks ov cs) =
          sort_key seg_start (concat (map (\<lambda>(i, c). kept_segments ov (length completed) i c)
            (enumerate 0 completed)))"
        using ne False unfolding completed_def by (simp add: merge_chunks_def Let_def)
      have "set (concat (map (\<lambda>(i, c). kept_segments ov (length completed) i c)
            (enumerate 0 completed))) \<subseteq> (\<Union>c\<in>texted. set (segments c))"
      proof
        fix s
        assume "s \<in> set (concat (map (\<lambda>(i, c). kept_segments ov (length completed) i c)
            (enumerate 0 completed)))"
        then obtain i c where ic: "(i, c) \<in> set (enumerate 0 completed)"
          "s \<in> set (kept_segments ov (length completed) i c)"
          by auto
        from ic(1) have "i < length completed" "c = completed ! i"
          by (simp_all add: in_set_enumerate_eq)
        then have "c \<in> set completed" by (metis nth_mem)
        then have "c \<in> texted" using sub by blast
        moreover have "s \<in> set (segments c)" using ic(2) kept_segments_subset by blast
        ultimately show "s \<in> (\<Union>c\<in>texted. set (segments c))" by blast
      qed
      then show ?thesis unfolding eq by simp
    qed
  qed
  then show ?thesis unfolding texted_def .
qed

lemma insort_key_map_same:
  assumes "\<And>c. k (g c) = k c"
  shows "insort_key k (g x) (map g ys) = map g (insort_key k x ys)"
  by (induction ys) (simp_all add: assms)

lemma sort_key_map_same:
  assumes "\<And>c. k (g c) = k c"
  shows "sort_key k (map g cs) = map g (sort_key k cs)"
proof (induction cs)
  case Nil
  show ?case by simp
next
  case (Cons c cs)
  show ?case using Cons insort_key_map_same[of k g c "sort_key k cs"] assms by simp
qed

lemma kept_segments_cong:
  assumes "segments c' = segments c" "start_time c' = start_time c" "end_time c' = end_time c"
    "overlap_start c' = overlap_start c"
  shows "kept_segments ov n i c' = kept_segments ov n i c"
  by (simp add: kept_segments_def filter_segments_first_chunk_def filter_segments_last_chunk_def
      filter_segments_middle_chunk_def assms)


lemma merge_chunks_status:
  "merge_chunks ov (map (\<lambda>c. c\<lparr>status := st c\<rparr>) cs) = merge_chunks ov cs"
proof -
  let ?g = "\<lambda>c. c\<lparr>status := st c\<rparr>"
  let ?P = "\<lambda>c. chunk_text c \<noteq> None"
  define F where "F = (\<lambda>xs. if xs = [] then ([], [])
       else if length xs = 1 then (the (chunk_text (hd xs)), segments (hd xs))
       else (join '' '' (split (join '' '' (map (\<lambda>segs. join '' '' (map seg_text segs))
               (map (\<lambda>(i, c). kept_segments ov (length xs) i c) (enumerate 0 xs))))),
             sort_key seg_start (concat (map (\<lambda>(i, c). kept_segments ov (length xs) i c)
               (enumerate 0 xs)))))"
  have m: "merge_chunks ov ys = F (filter ?P (sort_key index ys))" for ys
    by (simp add: merge_chunks_def F_def Let_def)
  have s: "sort_key index (map ?g cs) = map ?g (sort_key index cs)"
    by (rule sort_key_map_same) simp
  have f: "filter ?P (map ?g ys) = map ?g (filter ?P ys)" for ys
    by (simp add: filter_map comp_def)
  have e': "map (\<lambda>(i, c). kept_segments ov n i c) (enumerate k (map ?g xs)) =
           map (\<lambda>(i, c). kept_segments ov n i c) (enumerate k xs)" for n k xs
  proof (induction xs arbitrary: k)
    case Nil
    show ?case by simp
  next
    case (Cons x xs)
    have "kept_segments ov n k (?g x) = kept_segments ov n k x"
      by (rule kept_segments_cong) simp_all
    then show ?case using Cons by simp
  qed
  have e: "map (\<lambda>(i, c). kept_segments ov n i c) (enumerate 0 (map ?g xs)) =
           map (\<lambda>(i, c). kept_segments ov n i c) (enumerate 0 xs)" for n xs
    by (rule e')
  have F: "F (map ?g xs) = F xs" for xs
  proof (cases "xs = []")
    case True
    then show ?thesis by (simp add: F_def)
  next
    case False
    then have "chunk_text (hd (map ?g xs)) = chunk_text (hd xs)"
      "segments (hd (map ?g xs)) = segments (hd xs)" by (simp_all add: hd_map)
    then show ?thesis unfolding F_def e by simp
  qed
  show ?thesis unfolding m s f F ..
qed

lemma kept_segments_window:
  "s \<in> set (segments c) \<Longrightarrow> start_time c + overlap_start c \<le> seg_start s \<Longrightarrow>
   seg_end s \<le> end_time c - ov \<Longrightarrow> s \<in> set (kept_segments ov n i c)"
  by (auto simp: kept_segments_def filter_segments_first_chunk_def filter_segments_last_chunk_def
      filter_segments_middle_chunk_def Let_def)

lemma merge_chunks_single: "chunk_text c = Some t \<Longrightarrow> merge_chunks ov [c] = (t, segments c)"
  by (simp add: merge_chunks_def)

lemma merge_chunks_window:
  assumes "c \<in> set cs" "chunk_text c \<noteq> None" "s \<in> set (segments c)"
    "start_time c + overlap_start c \<le> seg_start s" "seg_end s \<le> end_time c - ov"
  shows "s \<in> set (snd (merge_chunks ov cs))"
proof -
  define completed where "completed = filter (\<lambda>c. chunk_text c \<noteq> None) (sort_key index cs)"
  have mem: "c \<in> set completed" using assms(1,2) by (simp add: completed_def)
  then have ne: "completed \<noteq> []" by (metis empty_iff empty_set)
  have cs: "cs \<noteq> []" using assms(1) by auto
  show ?thesis
  proof (cases "length completed = 1")
    case True
    then obtain x where x: "completed = [x]" by (cases completed) auto
    then have "hd completed = c" using mem by simp
    moreover have "snd (merge_chunks ov cs) = segments (hd completed)"
      using ne cs True unfolding completed_def by (simp add: merge_chunks_def Let_def)
    ultimately show ?thesis using assms(3) by simp
  next
    case False
    have eq: "snd (merge_chunks ov cs) = sort_key seg_start (concat (map (\<lambda>(i, c). kept_segments ov (length completed) i c) (enumerate 0 completed)))"
      using ne cs False unfolding completed_def by (simp add: merge_chunks_def Let_def)
    from mem obtain i where i: "i < length completed" "completed ! i = c"
      by (metis in_set_conv_nth)
    then have ic: "(i, c) \<in> set (enumerate 0 completed)"
      by (simp add: in_set_enumerate_eq)
    have k: "s \<in> set (kept_segments ov (length completed) i c)"
      using assms(3,4,5) by (rule kept_segments_window)
    have "s \<in> set (concat (map (\<lambda>(i, c). kept_segments ov (length completed) i c) (enumerate 0 completed)))"
      unfolding set_concat set_map using ic k by force
    then show ?thesis unfolding eq by simp
  qed
qed

text \<open>
  C9. \<open>merge_chunks\<close> only selects segments: every segment of its output is a segment of
  one of the input chunks that carry text, unchanged in start, end, text and speaker
  (segments are kept or dropped whole). Whether a chunk takes part is decided by its text
  alone, never by its status: changing the status fields leaves the result as it is; a
  single chunk with text is returned with its text and all its segments; and in any list,
  every segment of a chunk with text that lies between the chunk's leading overlap boundary
  and its trailing overlap boundary is in the output. So a FAILED chunk that carries text
  is merged.
\<close>

theorem merge_chunks_selects:
  "set (snd (merge_chunks ov cs)) \<subseteq>
     (\<Union>c\<in>{c \<in> set cs. chunk_text c \<noteq> None}. set (segments c)) \<and>
   merge_chunks ov (map (\<lambda>c. c\<lparr>status := st c\<rparr>) cs) = merge_chunks ov cs \<and>
   (\<forall>c t. chunk_text c = Some t \<longrightarrow> merge_chunks ov [c] = (t, segments c)) \<and>
   (\<forall>c s. c \<in> set cs \<and> chunk_text c \<noteq> None \<and> s \<in> set (segments c) \<and>
      start_time c + overlap_start c \<le> seg_start s \<and> seg_end s \<le> end_time c - ov \<longrightarrow>
      s \<in> set (snd (merge_chunks ov cs)))"
proof (intro conjI allI impI)
  show "set (snd (merge_chunks ov cs)) \<subseteq>
     (\<Union>c\<in>{c \<in> set cs. chunk_text c \<noteq> None}. set (segments c))"
    by (rule merge_chunks_subset)
  show "merge_chunks ov (map (\<lambda>c. c\<lparr>status := st c\<rparr>) cs) = merge_chunks ov cs"
    by (rule merge_chunks_status)
  show "merge_chunks ov [c] = (t, segments c)" if "chunk_text c = Some t" for c t
    using that by (rule merge_chunks_single)
  show "s \<in> set (snd (merge_chunks ov cs))"
    if "c \<in> set cs \<and> chunk_text c \<noteq> None \<and> s \<in> set (segments c) \<and>
      start_time c + overlap_start c \<le> seg_start s \<and> seg_end s \<le> end_time c - ov" for c s
    using that merge_chunks_window [of c cs s ov] by simp
qed

theorem merge_chunks_selects_witness:
  "merge_chunks 10 failed_chunks = (''a b'', [segment 0 100 ''a'', segment 400 500 ''b'']) \<and>
   map status failed_chunks = [CFailed, CFailed] \<and>
   map chunk_text failed_chunks = [Some ''a dup'', Some ''dup b''] \<and>
   failed_chunks ! 1 \<in> set failed_chunks \<and>
   chunk_text (failed_chunks ! 1) \<noteq> None \<and>
   segment 400 500 ''b'' \<in> set (segments (failed_chunks ! 1)) \<and>
   start_time (failed_chunks ! 1) + overlap_start (failed_chunks ! 1) \<le> seg_start (segment 400 500 ''b'') \<and>
   seg_end (segment 400 500 ''b'') \<le> end_time (failed_chunks ! 1) - 10 \<and>
   segment 400 500 ''b'' \<in> set (snd (merge_chunks 10 failed_chunks)) \<and>
   merge_chunks 10 (map (\<lambda>c. c\<lparr>status := CCompleted\<rparr>) failed_chunks) = merge_chunks 10 failed_chunks \<and>
   merge_chunks 10 [failed_chunks ! 1] = (''dup b'', segments (failed_chunks ! 1))"
proof -
  have h0: "merge_chunks 10 failed_chunks = (''a b'', [segment 0 100 ''a'', segment 400 500 ''b''])"
    by code_simp
  have h1: "map status failed_chunks = [CFailed, CFailed]"
    "map chunk_text failed_chunks = [Some ''a dup'', Some ''dup b'']" by code_simp+
  have h2: "failed_chunks ! 1 \<in> set failed_chunks" by (simp add: failed_chunks_def)
  have h3: "chunk_text (failed_chunks ! 1) \<noteq> None" by (simp add: failed_chunks_def)
  have h3': "chunk_text (failed_chunks ! 1) = Some ''dup b''" by (simp add: failed_chunks_def)
  have h4: "segment 400 500 ''b'' \<in> set (segments (failed_chunks ! 1))"
    by (simp add: failed_chunks_def)
  have h5: "start_time (failed_chunks ! 1) + overlap_start (failed_chunks ! 1) \<le>
      seg_start (segment 400 500 ''b'')" by (simp add: failed_chunks_def segment_def Chunk_def)
  have h6: "seg_end (segment 400 500 ''b'') \<le> end_time (failed_chunks ! 1) - 10"
    by (simp add: failed_chunks_def segment_def Chunk_def)
  note T = merge_chunks_selects [of 10 failed_chunks "\<lambda>c. CCompleted"]
  note T2 = T [THEN conjunct2, THEN conjunct1]
  note T3 = T [THEN conjunct2, THEN conjunct2, THEN conjunct1, rule_format, OF h3']
  note T4 = T [THEN conjunct2, THEN conjunct2, THEN conjunct2, rule_format,
      OF conjI [OF h2 conjI [OF h3 conjI [OF h4 conjI [OF h5 h6]]]]]
  show ?thesis by (intro conjI) (rule h0 h1 h2 h3 h4 h5 h6 T2 T3 T4)+
qed

text \<open>
  C3 (as amended). With \<open>chunk_duration = 300\<close>, \<open>overlap = 10\<close>, \<open>min_chunk = 30\<close> and
  \<open>duration = 600\<close> the planner yields exactly the chunks \<open>[0, 300]\<close> and \<open>[290, 600]\<close>, with
  \<open>overlap_start\<close> 0 and 10; with the stub for the model, transcribing the two chunk files
  and merging yields the segments \<open>(0, 300, T_0)\<close> and \<open>(290, 600, T_1)\<close>, whole as the
  worker rebased them, and the full text \<open>T_0 T_1\<close>.
\<close>

theorem scenario_two_chunks:
  "calculate_chunks \<lparr>chunk_duration = 300, overlap = 10, min_chunk = 30\<rparr> 600 =
     Some (Inr [Chunk 0 0 300 0, Chunk 1 290 600 10]) \<and>
   map (\<lambda>c. c\<lparr>file_path := None\<rparr>) split_plan = [Chunk 0 0 300 0, Chunk 1 290 600 10] \<and>
   snd (snd (transcribe_all_chunks stub_engine True True split_plan)) = None \<and>
   merge_chunks 10 (fst (snd (transcribe_all_chunks stub_engine True True split_plan))) =
     (''T_0 T_1'', [segment 0 300 ''T_0'', segment 290 600 ''T_1''])"
proof (intro conjI)
  show "calculate_chunks \<lparr>chunk_duration = 300, overlap = 10, min_chunk = 30\<rparr> 600 =
     Some (Inr [Chunk 0 0 300 0, Chunk 1 290 600 10])"
    by (simp add: calculate_chunks_def calc_loop.simps extend_last_def Chunk_def)
  show "map (\<lambda>c. c\<lparr>file_path := None\<rparr>) split_plan = [Chunk 0 0 300 0, Chunk 1 290 600 10]"
    by (simp add: split_plan_def Chunk_def)
  show "snd (snd (transcribe_all_chunks stub_engine True True split_plan)) = None"
    by code_simp
  show "merge_chunks 10 (fst (snd (transcribe_all_chunks stub_engine True True split_plan))) =
     (''T_0 T_1'', [segment 0 300 ''T_0'', segment 290 600 ''T_1''])"
    by code_simp
qed

text \<open>
  C3 as stated fails: the merged segments are not \<open>(0, 290, T_0)\<close> and \<open>(300, 600, T_1)\<close>;
  the merger does not clip a segment at the overlap boundary.
\<close>

theorem scenario_two_chunks_counterexample:
  "merge_chunks 10 (fst (snd (transcribe_all_chunks stub_engine True True split_plan))) \<noteq>
     (''T_0 T_1'', [segment 0 290 ''T_0'', segment 300 600 ''T_1''])"
  by code_simp
section \<open>The transcription worker\<close>

lemma hd_strip: "strip s \<noteq> [] \<Longrightarrow> \<not> is_space (hd (strip s)) \<and> \<not> is_space (last (strip s))"
proof -
  assume ne: "strip s \<noteq> []"
  let ?a = "dropWhile is_space s"
  let ?b = "dropWhile is_space (rev ?a)"
  have b: "?b \<noteq> []" using ne by (simp add: strip_def)
  have a: "?a \<noteq> []"
  proof
    assume "?a = []"
    then have "?b = []" by (simp only: rev.simps dropWhile.simps)
    then show False using b by simp
  qed
  have "\<not> is_space (hd ?b)" using b by (rule hd_dropWhile)
  then have l: "\<not> is_space (last (strip s))" using b by (simp add: strip_def last_rev)
  obtain xs where xs: "rev ?a = xs @ ?b" by (metis takeWhile_dropWhile_id)
  have "last ?b = last (rev ?a)" using b xs by (metis last_appendR)
  also have "\<dots> = hd ?a" using a by (simp add: last_rev)
  finally have "hd (strip s) = hd ?a" using b by (simp add: strip_def hd_rev)
  moreover have "\<not> is_space (hd ?a)" using a by (rule hd_dropWhile)
  ultimately show ?thesis using l by simp
qed

lemma complete_chunk_fields:
  "index (complete_chunk t c r) = index c" "start_time (complete_chunk t c r) = start_time c"
  "status (complete_chunk t c r) = CCompleted" "segments (complete_chunk t c r) = extract_segments c r"
  by (simp_all add: complete_chunk_def)

lemma transcribe_on_cpu_index: "index (transcribe_on_cpu eng c p) = index c"
  by (simp add: transcribe_on_cpu_def complete_chunk_def split: model_outcome.splits option.splits)

lemma transcribe_on_cpu_completed:
  "status (transcribe_on_cpu eng c p) = CCompleted \<Longrightarrow>
   \<exists>r. cpu_transcribe eng p = Returned r \<and> transcribe_on_cpu eng c p = complete_chunk (now eng) c r"
  by (auto simp: transcribe_on_cpu_def complete_chunk_def split: model_outcome.splits option.splits)

lemma attempt_loop_index:
  "attempt_loop eng c p m a = Inr c' \<Longrightarrow> index c' = index c"
proof (induction eng c p m a rule: attempt_loop.induct)
  case (1 eng c p m a)
  from 1(2) have "(if int a < m then
        (case model_transcribe eng p a of
           Returned result \<Rightarrow> Inr (complete_chunk (now eng) c result)
         | RaisedRuntimeError e \<Rightarrow>
             if is_oom e then
               (if int a = m - 1 then
                  (if device eng \<noteq> ''cpu'' then Inr (transcribe_on_cpu eng c p)
                   else Inl OutOfMemoryError)
                else attempt_loop eng c p m (a + 1))
             else Inl (TranscriptionError e)
         | RaisedOther e \<Rightarrow> Inl (OtherError e))
      else Inr (c\<lparr>status := CFailed, chunk_error := Some ''Max retries exceeded''\<rparr>)) = Inr c'"
    by (subst (asm) attempt_loop.simps)
  then show ?case using 1(1)
    by (auto simp: complete_chunk_fields transcribe_on_cpu_index split: if_splits model_outcome.splits)
qed

lemma attempt_loop_completed:
  "attempt_loop eng c p m a = Inr c' \<Longrightarrow> status c' = CCompleted \<Longrightarrow>
   \<exists>r. ((\<exists>k. model_transcribe eng p k = Returned r) \<or> cpu_transcribe eng p = Returned r) \<and>
       c' = complete_chunk (now eng) c r"
proof (induction eng c p m a rule: attempt_loop.induct)
  case (1 eng c p m a)
  from 1(2) have "(if int a < m then
        (case model_transcribe eng p a of
           Returned result \<Rightarrow> Inr (complete_chunk (now eng) c result)
         | RaisedRuntimeError e \<Rightarrow>
             if is_oom e then
               (if int a = m - 1 then
                  (if device eng \<noteq> ''cpu'' then Inr (transcribe_on_cpu eng c p)
                   else Inl OutOfMemoryError)
                else attempt_loop eng c p m (a + 1))
             else Inl (TranscriptionError e)
         | RaisedOther e \<Rightarrow> Inl (OtherError e))
      else Inr (c\<lparr>status := CFailed, chunk_error := Some ''Max retries exceeded''\<rparr>)) = Inr c'"
    by (subst (asm) attempt_loop.simps)
  then show ?case using 1(1,3) transcribe_on_cpu_completed[of eng c p]
    by (auto split: if_splits model_outcome.splits)
qed


lemma transcribe_chunk_index: "transcribe_chunk eng c m = Inr c' \<Longrightarrow> index c' = index c"
  by (auto simp: transcribe_chunk_def attempt_loop_index split: option.splits if_splits)

text \<open>
  C5 (as amended). For every chunk that \<open>transcribe_chunk\<close> returns as COMPLETED, by the
  resident model or by the CPU fallback, the segments of the chunk are the segments the
  model reported for the chunk's file, one for one and in order: start and end are the
  model's plus \<open>chunk.start_time\<close>, and the text is the model's text stripped, so that it
  neither begins nor ends with whitespace. No segment is discarded: a segment whose
  stripped text is empty stays in the list.
\<close>

theorem transcribe_chunk_segments:
  assumes "transcribe_chunk eng c max_retries = Inr c'" and "status c' = CCompleted"
  shows "\<exists>p result. file_path c = Some p \<and>
     ((\<exists>k. model_transcribe eng p k = Returned result) \<or> cpu_transcribe eng p = Returned result) \<and>
     segments c' =
       map (\<lambda>seg. \<lparr>seg_start = start_time c + m_start seg, seg_end = start_time c + m_end seg,
                   seg_text = strip (m_text seg), speaker = None\<rparr>)
         (case r_segments result of None \<Rightarrow> [] | Some segs \<Rightarrow> segs) \<and>
     (\<forall>s\<in>set (segments c'). seg_text s = [] \<or>
        (\<not> is_space (hd (seg_text s)) \<and> \<not> is_space (last (seg_text s))))"
proof -
  from assms(1) obtain p where p: "file_path c = Some p" and
    run: "attempt_loop eng c p max_retries 0 = Inr c'"
    by (auto simp: transcribe_chunk_def split: option.splits if_splits)
  from attempt_loop_completed[OF run assms(2)] obtain r where
    r: "(\<exists>k. model_transcribe eng p k = Returned r) \<or> cpu_transcribe eng p = Returned r"
    and c': "c' = complete_chunk (now eng) c r" by blast
  have segs: "segments c' = extract_segments c r" using c' by (simp add: complete_chunk_fields)
  have "\<forall>s\<in>set (segments c'). seg_text s = [] \<or>
        (\<not> is_space (hd (seg_text s)) \<and> \<not> is_space (last (seg_text s)))"
    unfolding segs extract_segments_def using hd_strip by auto
  then show ?thesis using p r segs unfolding extract_segments_def by blast
qed

theorem transcribe_chunk_segments_witness:
  "transcribe_chunk stub_engine (hd split_plan) 3 =
     Inr (complete_chunk 0 (hd split_plan)
            \<lparr>r_text = Some ''T_0'',
              r_segments = Some [\<lparr>m_start = 0, m_end = 300, m_text = ''T_0''\<rparr>]\<rparr>) \<and>
   (\<exists>p result. file_path (hd split_plan) = Some p \<and>
     ((\<exists>k. model_transcribe stub_engine p k = Returned result) \<or>
      cpu_transcribe stub_engine p = Returned result) \<and>
     segments (complete_chunk 0 (hd split_plan)
            \<lparr>r_text = Some ''T_0'',
              r_segments = Some [\<lparr>m_start = 0, m_end = 300, m_text = ''T_0''\<rparr>]\<rparr>) =
       map (\<lambda>seg. \<lparr>seg_start = start_time (hd split_plan) + m_start seg,
                   seg_end = start_time (hd split_plan) + m_end seg,
                   seg_text = strip (m_text seg), speaker = None\<rparr>)
         (case r_segments result of None \<Rightarrow> [] | Some segs \<Rightarrow> segs))"
proof -
  let ?c' = "complete_chunk 0 (hd split_plan)
            \<lparr>r_text = Some ''T_0'',
              r_segments = Some [\<lparr>m_start = 0, m_end = 300, m_text = ''T_0''\<rparr>]\<rparr>"
  have h1: "transcribe_chunk stub_engine (hd split_plan) 3 = Inr ?c'" by code_simp
  have h2: "status ?c' = CCompleted" by (simp add: complete_chunk_fields)
  show ?thesis using h1 transcribe_chunk_segments [OF h1 h2] by blast
qed

text \<open>
  C5 as stated fails: a segment whose text is only whitespace is not discarded. For a model
  that reports the segment \<open>(0, 1, "  ")\<close> on a chunk starting at 290, the chunk is returned
  COMPLETED with the segment \<open>(290, 291, "")\<close>.
\<close>

theorem transcribe_chunk_keeps_empty_counterexample:
  "map_sum id (\<lambda>c. (status c, segments c))
     (transcribe_chunk
        (constant_engine ''cuda''
           (Returned \<lparr>r_text = Some ''  '',
                      r_segments = Some [\<lparr>m_start = 0, m_end = 1, m_text = ''  ''\<rparr>]\<rparr>)
           (RaisedOther ''unused''))
        (split_plan ! 1) 3) =
   Inr (CCompleted, [segment 290 291 []])"
  by code_simp

lemma ev_of_Cons: "ev_of eng N cs (Suc k) e \<Longrightarrow> ev_of eng N (c # cs) k e"
  by (cases e) auto

lemma loop_events:
  "list_all (ev_of eng N cs k) (fst (all_chunks_loop eng True True N k cs))"
proof (induction cs arbitrary: k)
  case Nil
  show ?case by simp
next
  case (Cons c cs)
  have "list_all (ev_of eng N cs (Suc k)) (fst (all_chunks_loop eng True True N (Suc k) cs))"
    by (rule Cons.IH)
  then have ih: "list_all (ev_of eng N (c # cs) k) (fst (all_chunks_loop eng True True N (Suc k) cs))"
    by (rule list.pred_mono_strong) (rule ev_of_Cons)
  show ?case
  proof (cases "status c = CCompleted")
    case True
    then show ?thesis using ih by (simp add: case_prod_unfold Let_def)
  next
    case False
    show ?thesis
    proof (cases "transcribe_chunk eng c 3")
      case (Inl e)
      then show ?thesis using False by simp
    next
      case (Inr c')
      then show ?thesis using False ih by (simp add: case_prod_unfold Let_def)
    qed
  qed
qed

lemma loop_append:
  "all_chunks_loop eng True True N k (xs @ zs) =
     (case all_chunks_loop eng True True N k xs of
        (tr, xs', None) \<Rightarrow>
          (case all_chunks_loop eng True True N (k + length xs) zs of
             (tr2, zs', err) \<Rightarrow> (tr @ tr2, xs' @ zs', err))
      | (tr, xs', Some e) \<Rightarrow> (tr, xs' @ zs, Some e))"
proof (induction xs arbitrary: k)
  case Nil
  show ?case by simp
next
  case (Cons c xs)
  show ?case
  proof (cases "status c = CCompleted")
    case True
    then show ?thesis using Cons[of "Suc k"]
      by (simp add: case_prod_unfold Let_def split: option.splits)
  next
    case False
    show ?thesis
    proof (cases "transcribe_chunk eng c 3")
      case (Inl e)
      then show ?thesis using False by simp
    next
      case (Inr c')
      then show ?thesis using False Cons[of "Suc k"]
        by (simp add: case_prod_unfold Let_def split: option.splits)
    qed
  qed
qed

lemma loop_no_error:
  "list_all (\<lambda>x. status x = CCompleted \<or> \<not> isl (transcribe_chunk eng x 3)) xs \<Longrightarrow>
   snd (snd (all_chunks_loop eng True True N k xs)) = None"
proof (induction xs arbitrary: k)
  case Nil
  show ?case by simp
next
  case (Cons c xs)
  then have ih: "snd (snd (all_chunks_loop eng True True N (Suc k) xs)) = None" by simp
  show ?case
  proof (cases "status c = CCompleted")
    case True
    then show ?thesis using ih by (simp add: case_prod_unfold Let_def)
  next
    case False
    then obtain c' where "transcribe_chunk eng c 3 = Inr c'"
      using Cons.prems by (cases "transcribe_chunk eng c 3") auto
    then show ?thesis using False ih by (simp add: case_prod_unfold Let_def)
  qed
qed

lemma dense_position:
  assumes "map index (xs @ c # ys) = map int [0..<length (xs @ c # ys)]"
  shows "index c = int (length xs)"
proof -
  have "map index (xs @ c # ys) ! length xs = map int [0..<length (xs @ c # ys)] ! length xs"
    using assms by simp
  then show ?thesis by (simp add: nth_append del: upt_Suc)
qed

text \<open>
  C6 (as amended). \<open>transcribe_all_chunks\<close> processes the chunks in the order of the list,
  which is ascending index when the list is sorted by index (then the chunk at position
  \<open>k\<close> has index \<open>k\<close>). When both callbacks are given and the loop reaches a chunk \<open>c\<close> at
  position \<open>k\<close> that is not COMPLETED, the trace is: the events of the chunks before \<open>c\<close>
  (progress reports of at most \<open>k\<close>), then the start of the transcription of \<open>c\<close>, and then,
  unless \<open>transcribe_chunk\<close> raises and ends the loop there, the checkpoint callback with
  the very chunk that \<open>transcribe_chunk\<close> returned, the progress report \<open>(k + 1, N)\<close>, the
  cache reset, and only then the events of the chunks after \<open>c\<close> (progress reports above
  \<open>k + 1\<close>). So no progress is reported for a transcribed chunk before its result was
  handed to the checkpoint callback.
\<close>

theorem transcribe_all_chunks_order:
  assumes "load_model_error eng = None"
    and "list_all (\<lambda>x. status x = CCompleted \<or> \<not> isl (transcribe_chunk eng x 3)) xs"
    and "status c \<noteq> CCompleted"
  shows
    "list_all (ev_of eng (length (xs @ c # ys)) xs 0)
       (fst (all_chunks_loop eng True True (length (xs @ c # ys)) 0 xs)) \<and>
     list_all (ev_of eng (length (xs @ c # ys)) ys (length xs + 1))
       (fst (all_chunks_loop eng True True (length (xs @ c # ys)) (length xs + 1) ys)) \<and>
     (case transcribe_chunk eng c 3 of
        Inl e \<Rightarrow>
          fst (transcribe_all_chunks eng True True (xs @ c # ys)) =
            fst (all_chunks_loop eng True True (length (xs @ c # ys)) 0 xs) @ [EvTranscribe (index c)] \<and>
          snd (snd (transcribe_all_chunks eng True True (xs @ c # ys))) = Some e
      | Inr c' \<Rightarrow>
          fst (transcribe_all_chunks eng True True (xs @ c # ys)) =
            fst (all_chunks_loop eng True True (length (xs @ c # ys)) 0 xs) @
            [EvTranscribe (index c), EvCheckpoint c',
             EvProgress (length xs + 1) (length (xs @ c # ys)), EvCleanup] @
            fst (all_chunks_loop eng True True (length (xs @ c # ys)) (length xs + 1) ys)) \<and>
     (map index (xs @ c # ys) = map int [0..<length (xs @ c # ys)] \<longrightarrow> index c = int (length xs))"
proof -
  let ?N = "length (xs @ c # ys)"
  let ?X = "all_chunks_loop eng True True ?N 0 xs"
  let ?Y = "all_chunks_loop eng True True ?N (length xs + 1) ys"
  have ne: "snd (snd ?X) = None" using assms(2) by (rule loop_no_error)
  have all: "transcribe_all_chunks eng True True (xs @ c # ys) =
      (case all_chunks_loop eng True True ?N (length xs) (c # ys) of
         (tr2, zs', err) \<Rightarrow> (fst ?X @ tr2, fst (snd ?X) @ zs', err))"
    using assms(1) ne loop_append[of eng ?N 0 xs "c # ys"]
    by (simp add: transcribe_all_chunks_def case_prod_unfold split: option.splits)
  have run: "(case transcribe_chunk eng c 3 of
        Inl e \<Rightarrow>
          fst (transcribe_all_chunks eng True True (xs @ c # ys)) = fst ?X @ [EvTranscribe (index c)] \<and>
          snd (snd (transcribe_all_chunks eng True True (xs @ c # ys))) = Some e
      | Inr c' \<Rightarrow>
          fst (transcribe_all_chunks eng True True (xs @ c # ys)) =
            fst ?X @ [EvTranscribe (index c), EvCheckpoint c', EvProgress (length xs + 1) ?N, EvCleanup] @
            fst ?Y)"
  proof (cases "transcribe_chunk eng c 3")
    case (Inl e)
    then show ?thesis unfolding all using assms(3) by simp
  next
    case (Inr c')
    then show ?thesis unfolding all using assms(3) by (simp add: case_prod_unfold Let_def)
  qed
  show ?thesis using loop_events run dense_position by blast
qed

theorem transcribe_all_chunks_order_witness:
  "load_model_error stub_engine = None \<and>
   list_all (\<lambda>x. status x = CCompleted \<or> \<not> isl (transcribe_chunk stub_engine x 3)) [split_plan ! 0] \<and>
   status (split_plan ! 1) \<noteq> CCompleted \<and>
   transcribe_chunk stub_engine (split_plan ! 1) 3 =
     Inr (complete_chunk 0 (split_plan ! 1)
            \<lparr>r_text = Some ''T_1'',
              r_segments = Some [\<lparr>m_start = 0, m_end = 310, m_text = ''T_1''\<rparr>]\<rparr>) \<and>
   fst (transcribe_all_chunks stub_engine True True ([split_plan ! 0] @ split_plan ! 1 # [])) =
     fst (all_chunks_loop stub_engine True True (length ([split_plan ! 0] @ split_plan ! 1 # [])) 0
            [split_plan ! 0]) @
     [EvTranscribe (index (split_plan ! 1)),
      EvCheckpoint (complete_chunk 0 (split_plan ! 1)
            \<lparr>r_text = Some ''T_1'',
              r_segments = Some [\<lparr>m_start = 0, m_end = 310, m_text = ''T_1''\<rparr>]\<rparr>),
      EvProgress (length [split_plan ! 0] + 1) (length ([split_plan ! 0] @ split_plan ! 1 # [])),
      EvCleanup] @
     fst (all_chunks_loop stub_engine True True (length ([split_plan ! 0] @ split_plan ! 1 # []))
            (length [split_plan ! 0] + 1) []) \<and>
   list_all (ev_of stub_engine (length ([split_plan ! 0] @ split_plan ! 1 # [])) [split_plan ! 0] 0)
     (fst (all_chunks_loop stub_engine True True (length ([split_plan ! 0] @ split_plan ! 1 # [])) 0
            [split_plan ! 0])) \<and>
   length [split_plan ! 0] + 1 = 2 \<and> length ([split_plan ! 0] @ split_plan ! 1 # []) = 2"
proof -
  let ?c' = "complete_chunk 0 (split_plan ! 1)
            \<lparr>r_text = Some ''T_1'',
              r_segments = Some [\<lparr>m_start = 0, m_end = 310, m_text = ''T_1''\<rparr>]\<rparr>"
  have h1: "load_model_error stub_engine = None" by (simp add: stub_engine_def)
  have h2: "list_all (\<lambda>x. status x = CCompleted \<or> \<not> isl (transcribe_chunk stub_engine x 3))
      [split_plan ! 0]" by code_simp
  have h3: "status (split_plan ! 1) \<noteq> CCompleted" by code_simp
  have h4: "transcribe_chunk stub_engine (split_plan ! 1) 3 = Inr ?c'" by code_simp
  note T = transcribe_all_chunks_order [OF h1 h2 h3, of "[]"]
  note T1 = T [THEN conjunct1]
  note T3 = T [THEN conjunct2, THEN conjunct2, THEN conjunct1, unfolded h4 sum.case]
  have l: "length [split_plan ! 0] + 1 = 2" "length ([split_plan ! 0] @ split_plan ! 1 # []) = 2"
    by simp_all
  show ?thesis by (intro conjI) (rule h1 h2 h3 h4 T1 T3 l)+
qed

text \<open>
  C6 as stated fails on a list that is not sorted by index: for the two-chunk plan in
  reverse order the chunk with index 1 is transcribed first, its checkpoint is followed by
  the progress report \<open>(1, 2)\<close>, not \<open>(2, 2)\<close>, and the chunk with index 0 is transcribed
  after it.
\<close>

theorem transcribe_all_chunks_list_order_counterexample:
  "map index (rev split_plan) = [1, 0] \<and>
   take 3 (fst (transcribe_all_chunks stub_engine True True (rev split_plan))) =
     [EvTranscribe 1,
      EvCheckpoint (complete_chunk 0 (split_plan ! 1)
            \<lparr>r_text = Some ''T_1'',
              r_segments = Some [\<lparr>m_start = 0, m_end = 310, m_text = ''T_1''\<rparr>]\<rparr>),
      EvProgress 1 2] \<and>
   fst (transcribe_all_chunks stub_engine True True (rev split_plan)) ! 4 = EvTranscribe 0"
  by code_simp
section \<open>Failures of a chunk and resuming\<close>

text \<open>
  C7. The code does not do what the claim says. A non-OOM \<open>RuntimeError\<close> of the
  resident model makes \<open>transcribe_chunk\<close> raise \<open>TranscriptionError\<close> at once; the batch
  driver stops, \<open>resume\<close> marks the job FAILED, but the chunk is left PENDING. When the
  error occurs in the CPU fallback, the chunk is marked FAILED and returned, nothing is
  raised, the batch driver goes on to the next chunk and the resumed job ends COMPLETED.
\<close>

theorem cpu_fallback_error_not_fatal:
  "transcribe_chunk failing_engine (hd split_plan) 3 =
     Inr ((hd split_plan)\<lparr>status := CFailed, chunk_error := Some ''decoder failed''\<rparr>) \<and>
   (case transcribe_all_chunks failing_engine True True split_plan of
      (tr, cs, err) \<Rightarrow> map status cs = [CFailed, CCompleted] \<and> err = None \<and> EvTranscribe 1 \<in> set tr) \<and>
   (case resume True failing_engine 10 sample_generator 7 sample_job of
      (st, j, res) \<Rightarrow> st = [TRANSCRIBE, MERGE, GENERATE] \<and> job_status j = COMPLETED \<and>
        map status (job_chunks j) = [CFailed, CCompleted] \<and> res = Inr (Some ''out.docx'')) \<and>
   transcribe_chunk (constant_engine ''cuda'' (RaisedRuntimeError ''bad input'') (RaisedOther ''unused''))
       (hd split_plan) 3 = Inl (TranscriptionError ''bad input'') \<and>
   (case resume True (constant_engine ''cuda'' (RaisedRuntimeError ''bad input'') (RaisedOther ''unused''))
           10 sample_generator 7 sample_job of
      (st, j, res) \<Rightarrow> st = [TRANSCRIBE] \<and> job_status j = FAILED \<and>
        map status (job_chunks j) = [CPending, CPending] \<and> res = Inl (TranscriptionError ''bad input''))"
  by code_simp

text \<open>
  C2. The code does not do what the claim says for a job persisted in EXTRACTING or
  CHUNKING: \<open>_resume_from_status\<close> starts no stage at all for it and marks it COMPLETED,
  whatever the worker, the merger and the document writer would do.
\<close>

theorem resume_from_early_status_runs_nothing:
  "resume_from_status eng ov gen t (j\<lparr>job_status := EXTRACTING\<rparr>) =
     ([], j\<lparr>job_status := COMPLETED, updated_at := t\<rparr>, None) \<and>
   resume_from_status eng ov gen t (j\<lparr>job_status := CHUNKING\<rparr>) =
     ([], j\<lparr>job_status := COMPLETED, updated_at := t\<rparr>, None)"
  by (simp add: resume_from_status_def resume_transcribe_def resume_merge_def resume_generate_def)

text \<open>For the other resumable statuses the stages from the current one on are started.\<close>

lemma resume_from_later_status:
  "fst (resume_from_status eng ov sample_generator t (j\<lparr>job_status := MERGING\<rparr>)) = [MERGE, GENERATE]"
  "fst (resume_from_status eng ov sample_generator t (j\<lparr>job_status := GENERATING\<rparr>)) = [GENERATE]"
  by (simp_all add: resume_from_status_def resume_transcribe_def resume_merge_def
      resume_generate_def sample_generator_def case_prod_unfold Let_def)
section \<open>The checkpoint store\<close>

lemma replace_chunk_absent:
  "\<forall>c\<in>set cs. index c \<noteq> index new \<Longrightarrow> replace_chunk new cs = cs"
  by (induction cs) simp_all

lemma load_job_cong: "d' stem = d stem \<Longrightarrow> load_job m d' stem = load_job m d stem"
  by (simp add: load_job_def)

lemma cleanable_cong:
  "d' stem = d stem \<Longrightarrow> cleanable m t age d' stem = cleanable m t age d stem"
proof -
  assume eq: "d' stem = d stem"
  then have lj: "load_job m d' stem = load_job m d stem" by (simp add: load_job_def)
  show ?thesis by (simp only: cleanable_def lj eq)
qed

lemma cleanable_step:
  "cleanable m t age d stem \<longleftrightarrow>
     (\<exists>f j. d stem = Some f \<and> t - mtime f > of_int age \<and> load_job m d stem = Some j \<and>
        (job_status j = COMPLETED \<or> job_status j = FAILED))"
  by (auto simp: cleanable_def split: option.splits)

lemma cleanup_loop_dry:
  "distinct stems \<Longrightarrow>
   cleanup_loop m t age True d stems = (d, card {s \<in> set stems. cleanable m t age d s})"
proof (induction stems)
  case Nil
  show ?case by simp
next
  case (Cons s stems)
  then have ih: "cleanup_loop m t age True d stems = (d, card {x \<in> set stems. cleanable m t age d x})"
    and s: "s \<notin> set stems" by simp_all
  show ?case
  proof (cases "cleanable m t age d s")
    case True
    then have "{x \<in> set (s # stems). cleanable m t age d x} =
               insert s {x \<in> set stems. cleanable m t age d x}" by auto
    then have "card {x \<in> set (s # stems). cleanable m t age d x} =
               Suc (card {x \<in> set stems. cleanable m t age d x})" using s by simp
    moreover have "cleanup_loop m t age True d (s # stems) =
        (d, card {x \<in> set stems. cleanable m t age d x} + 1)"
      using True ih by (auto simp: cleanable_step)
    ultimately show ?thesis by simp
  next
    case False
    then have "{x \<in> set (s # stems). cleanable m t age d x} =
               {x \<in> set stems. cleanable m t age d x}" by auto
    moreover have "cleanup_loop m t age True d (s # stems) =
        (d, card {x \<in> set stems. cleanable m t age d x})"
      using False ih by (auto simp: cleanable_def split: option.splits)
    ultimately show ?thesis by simp
  qed
qed

lemma cleanup_loop_delete:
  assumes named: "\<forall>stem j. load_job m d stem = Some j \<longrightarrow> job_id j = stem"
  shows "distinct stems \<Longrightarrow> \<forall>s\<in>set stems. d' s = d s \<Longrightarrow>
   cleanup_loop m t age False d' stems =
     ((\<lambda>s. if s \<in> set stems \<and> cleanable m t age d s then None else d' s),
      card {s \<in> set stems. cleanable m t age d s})"
proof (induction stems arbitrary: d')
  case Nil
  show ?case by simp
next
  case (Cons s stems)
  then have s: "s \<notin> set stems" and dist: "distinct stems" and same: "d' s = d s"
    and rest: "\<forall>x\<in>set stems. d' x = d x" by simp_all
  have cl: "cleanable m t age d' s = cleanable m t age d s"
    using same cleanable_cong [of d' s d m t age] by simp
  have lj: "load_job m d' s = load_job m d s"
    using same load_job_cong [of d' s d m] by simp
  show ?case
  proof (cases "cleanable m t age d s")
    case True
    then obtain f j where f: "d' s = Some f" "t - mtime f > of_int age"
      and j: "load_job m d' s = Some j" "job_status j = COMPLETED \<or> job_status j = FAILED"
      using cl by (auto simp: cleanable_step)
    have "load_job m d s = Some j" using j(1) lj by simp
    then have id: "job_id j = s" using named by blast
    let ?d = "d'(s := None)"
    have del: "fst (delete_job d' (job_id j)) = ?d" using f(1) id by (simp add: delete_job_def)
    have "\<forall>x\<in>set stems. ?d x = d x" using rest s by auto
    from Cons.IH[OF dist this]
    have ih: "cleanup_loop m t age False ?d stems =
       ((\<lambda>x. if x \<in> set stems \<and> cleanable m t age d x then None else ?d x),
        card {x \<in> set stems. cleanable m t age d x})" .
    have run: "cleanup_loop m t age False d' (s # stems) =
       ((\<lambda>x. if x \<in> set stems \<and> cleanable m t age d x then None else ?d x),
        card {x \<in> set stems. cleanable m t age d x} + 1)"
      using f j del ih by auto
    have "{x \<in> set (s # stems). cleanable m t age d x} =
          insert s {x \<in> set stems. cleanable m t age d x}" using True by auto
    then have "card {x \<in> set (s # stems). cleanable m t age d x} =
          Suc (card {x \<in> set stems. cleanable m t age d x})" using s by simp
    moreover have "(\<lambda>x. if x \<in> set stems \<and> cleanable m t age d x then None else ?d x) =
          (\<lambda>x. if x \<in> set (s # stems) \<and> cleanable m t age d x then None else d' x)"
      using True by auto
    ultimately show ?thesis using run by simp
  next
    case False
    from Cons.IH[OF dist rest]
    have ih: "cleanup_loop m t age False d' stems =
       ((\<lambda>x. if x \<in> set stems \<and> cleanable m t age d x then None else d' x),
        card {x \<in> set stems. cleanable m t age d x})" .
    have "cleanup_loop m t age False d' (s # stems) = cleanup_loop m t age False d' stems"
      using False cl by (auto simp: cleanable_def split: option.splits)
    moreover have "{x \<in> set (s # stems). cleanable m t age d x} =
          {x \<in> set stems. cleanable m t age d x}" using False by auto
    moreover have "(\<lambda>x. if x \<in> set stems \<and> cleanable m t age d x then None else d' x) =
          (\<lambda>x. if x \<in> set (s # stems) \<and> cleanable m t age d x then None else d' x)"
      using False by auto
    ultimately show ?thesis using ih by simp
  qed
qed

lemma sample_disk_named:
  "\<forall>stem j. load_job sample_manager sample_disk stem = Some j \<longrightarrow> job_id j = stem"
  by (auto simp: load_job_def sample_disk_def sample_manager_def to_job_def sample_state_def
      JobStatus_def split: if_splits option.splits)

text \<open>
  C8 (as amended). When every record is stored under its own job id,
  \<open>cleanup_old_jobs(max_age_seconds, dry_run)\<close> deletes exactly the records whose file is
  older than \<open>max_age_seconds\<close> and whose status is COMPLETED or FAILED, and returns their
  number; with \<open>dry_run\<close> nothing is deleted and the same number is returned. A record in
  any other status, CANCELLED included, is never deleted.
\<close>

theorem cleanup_old_jobs_exact:
  assumes "distinct listing" and "set listing = dom d"
    and "\<forall>stem j. load_job m d stem = Some j \<longrightarrow> job_id j = stem"
  shows "cleanup_old_jobs m t age False d listing =
           ((\<lambda>s. if cleanable m t age d s then None else d s),
            card {s \<in> dom d. cleanable m t age d s}) \<and>
         cleanup_old_jobs m t age True d listing = (d, card {s \<in> dom d. cleanable m t age d s}) \<and>
         (\<forall>s. cleanable m t age d s \<longleftrightarrow>
            (\<exists>f j. d s = Some f \<and> t - mtime f > of_int age \<and> load_job m d s = Some j \<and>
               (job_status j = COMPLETED \<or> job_status j = FAILED)))"
proof -
  have dom: "cleanable m t age d s \<Longrightarrow> s \<in> dom d" for s
    by (auto simp: cleanable_def split: option.splits)
  have "cleanup_loop m t age False d listing =
     ((\<lambda>s. if s \<in> set listing \<and> cleanable m t age d s then None else d s),
      card {s \<in> set listing. cleanable m t age d s})"
    using cleanup_loop_delete[OF assms(3) assms(1), of d t age] by simp
  moreover have "(\<lambda>s. if s \<in> set listing \<and> cleanable m t age d s then None else d s) =
      (\<lambda>s. if cleanable m t age d s then None else d s)"
    using dom assms(2) by auto
  ultimately have "cleanup_old_jobs m t age False d listing =
           ((\<lambda>s. if cleanable m t age d s then None else d s),
            card {s \<in> dom d. cleanable m t age d s})"
    using assms(2) by (simp add: cleanup_old_jobs_def)
  moreover have "cleanup_old_jobs m t age True d listing =
      (d, card {s \<in> dom d. cleanable m t age d s})"
    using cleanup_loop_dry[OF assms(1), of m t age d] assms(2) by (simp add: cleanup_old_jobs_def)
  ultimately show ?thesis using cleanable_step by blast
qed

theorem cleanup_old_jobs_exact_witness:
  "distinct [''a'', ''b'', ''c'', ''j1''] \<and> set [''a'', ''b'', ''c'', ''j1''] = dom sample_disk \<and>
   map (\<lambda>stem. map_option job_id (load_job sample_manager sample_disk stem))
     [''a'', ''b'', ''c'', ''j1''] = [Some ''a'', Some ''b'', Some ''c'', Some ''j1''] \<and>
   cleanup_old_jobs sample_manager 100 10 False sample_disk [''a'', ''b'', ''c'', ''j1''] =
     ((\<lambda>s. if cleanable sample_manager 100 10 sample_disk s then None else sample_disk s),
      card {s \<in> dom sample_disk. cleanable sample_manager 100 10 sample_disk s}) \<and>
   cleanup_old_jobs sample_manager 100 10 True sample_disk [''a'', ''b'', ''c'', ''j1''] =
     (sample_disk, card {s \<in> dom sample_disk. cleanable sample_manager 100 10 sample_disk s})"
proof -
  have h1: "distinct [''a'', ''b'', ''c'', ''j1'']" by simp
  have h2: "set [''a'', ''b'', ''c'', ''j1''] = dom sample_disk" by (auto simp: sample_disk_def)
  have h3: "map (\<lambda>stem. map_option job_id (load_job sample_manager sample_disk stem))
     [''a'', ''b'', ''c'', ''j1''] = [Some ''a'', Some ''b'', Some ''c'', Some ''j1'']" by code_simp
  show ?thesis
    using h1 h2 h3 cleanup_old_jobs_exact [OF h1 h2 sample_disk_named, of 100 10]
    by blast
qed

text \<open>
  C8 as stated fails: a CANCELLED record older than the limit is terminal in the sense of
  the claim but is not deleted. Of the four sample records, only the old COMPLETED one is
  deleted and counted.
\<close>

theorem cleanup_keeps_cancelled_counterexample:
  "map_option job_status (load_job sample_manager sample_disk ''b'') = Some CANCELLED \<and>
   (100::real) - mtime (the (sample_disk ''b'')) > of_int 10 \<and>
   fst (cleanup_old_jobs sample_manager 100 10 False sample_disk [''a'', ''b'', ''c'', ''j1'']) ''b'' =
     sample_disk ''b'' \<and>
   sample_disk ''b'' \<noteq> None \<and>
   fst (cleanup_old_jobs sample_manager 100 10 False sample_disk [''a'', ''b'', ''c'', ''j1'']) ''a'' = None \<and>
   snd (cleanup_old_jobs sample_manager 100 10 False sample_disk [''a'', ''b'', ''c'', ''j1'']) = 1"
  by code_simp

lemma JobStatus_value: "JobStatus x = Some v \<Longrightarrow> status_value v = x"
  by (auto simp: JobStatus_def split: if_splits)

lemma path_if_video: "(case path_if (Some p) of None \<Rightarrow> [] | Some q \<Rightarrow> q) = p"
  by (simp add: path_if_def)

lemma from_job_to_job:
  assumes "to_job m s = Some j"
  shows "from_job m (j\<lparr>updated_at := t\<rparr>) cd =
     s\<lparr>st_created_at := isoformat m (created_at j),
       st_updated_at := isoformat m t,
       st_audio_path := path_if (st_audio_path s),
       st_chunks_dir := cd,
       st_chunk_config := [(''duration_seconds'', chunk_duration (chunk_config m)),
                           (''overlap_seconds'', overlap (chunk_config m))],
       st_output_path := path_if (st_output_path s)\<rparr>"
proof -
  from assms obtain c u v where
    p: "fromisoformat m (st_created_at s) = Some c" "fromisoformat m (st_updated_at s) = Some u"
       "JobStatus (st_status s) = Some v"
    and j: "j = \<lparr>job_id = st_job_id s, video_path = path_if (Some (st_video_path s)),
                video_name = st_video_name s, created_at = c, updated_at = u,
                duration_seconds = st_duration_seconds s, job_status = v,
                job_error = st_error s, audio_path = path_if (st_audio_path s),
                job_chunks = st_chunks s, output_path = path_if (st_output_path s),
                transcription_text = st_transcription_text s, job_segments = []\<rparr>"
    by (auto simp: to_job_def split: option.splits)
  show ?thesis
    unfolding j using JobStatus_value [OF p(3)]
    by (cases s) (simp add: from_job_def path_if_video)
qed

lemma to_job_fields:
  "to_job m s = Some j \<Longrightarrow> job_id j = st_job_id s \<and> job_chunks j = st_chunks s"
  by (auto simp: to_job_def split: option.splits)

text \<open>
  C10 (as amended). \<open>save_chunk_result\<close> has no exceptional outcome: a record that is
  missing or does not load leaves the directory untouched, and a failing write is absorbed
  by \<open>save_job\<close>. When the stored job has no chunk with the index of the new one, what is
  written to the file of the job is the stored record with its chunk list unchanged and
  the new chunk result nowhere in it; of the record, besides \<open>updated_at\<close>, which is
  stamped, \<open>chunks_dir\<close> is written as null, \<open>chunk_config\<close> is taken from the current
  configuration, \<open>created_at\<close> is formatted anew, and an empty \<open>audio_path\<close> or
  \<open>output_path\<close> becomes null; every other field is as stored.
\<close>

theorem save_chunk_result_no_match_record:
  "(load_job m d stem = None \<longrightarrow> save_chunk_result m clk w d stem new = d) \<and>
   (\<forall>f s j. d stem = Some f \<and> json_load m (content f) = Some s \<and> to_job m s = Some j \<and>
        (\<forall>c\<in>set (st_chunks s). index c \<noteq> index new) \<longrightarrow>
      save_chunk_result m clk w d stem new =
        write_text d (now_time clk) (st_job_id s)
          (json_dump m
             (s\<lparr>st_created_at := isoformat m (created_at j),
                st_updated_at := isoformat m (now_datetime clk),
                st_audio_path := path_if (st_audio_path s),
                st_chunks_dir := None,
                st_chunk_config := [(''duration_seconds'', chunk_duration (chunk_config m)),
                                    (''overlap_seconds'', overlap (chunk_config m))],
                st_output_path := path_if (st_output_path s)\<rparr>)) w)"
proof (intro conjI allI impI)
  show "save_chunk_result m clk w d stem new = d" if "load_job m d stem = None"
    using that by (simp add: save_chunk_result_def)
next
  fix f s j
  assume a: "d stem = Some f \<and> json_load m (content f) = Some s \<and> to_job m s = Some j \<and>
        (\<forall>c\<in>set (st_chunks s). index c \<noteq> index new)"
  then have l: "load_job m d stem = Some j" by (simp add: load_job_def)
  have tj: "to_job m s = Some j" using a by simp
  note fields = to_job_fields [OF tj]
  have "replace_chunk new (job_chunks j) = job_chunks j"
    using a fields by (intro replace_chunk_absent) simp
  then have same: "j\<lparr>job_chunks := replace_chunk new (job_chunks j)\<rparr> = j" by simp
  show "save_chunk_result m clk w d stem new =
        write_text d (now_time clk) (st_job_id s)
          (json_dump m
             (s\<lparr>st_created_at := isoformat m (created_at j),
                st_updated_at := isoformat m (now_datetime clk),
                st_audio_path := path_if (st_audio_path s),
                st_chunks_dir := None,
                st_chunk_config := [(''duration_seconds'', chunk_duration (chunk_config m)),
                                    (''overlap_seconds'', overlap (chunk_config m))],
                st_output_path := path_if (st_output_path s)\<rparr>)) w"
    unfolding save_chunk_result_def l option.case same save_job_def Let_def fst_conv
      from_job_to_job [OF tj]
    using fields by simp
qed

theorem save_chunk_result_no_match_record_witness:
  "load_job sample_manager sample_disk ''zz'' = None \<and>
   save_chunk_result sample_manager \<lparr>now_datetime = 7, now_time = 100\<rparr> Written sample_disk ''zz''
     (Chunk 5 0 1 0) = sample_disk \<and>
   sample_disk ''j1'' = Some \<lparr>mtime = 90, content = ''j1:transcribing''\<rparr> \<and>
   json_load sample_manager (content \<lparr>mtime = 90, content = ''j1:transcribing''\<rparr>) =
     Some (sample_state ''j1'' ''transcribing'') \<and>
   to_job sample_manager (sample_state ''j1'' ''transcribing'') =
     Some (the (to_job sample_manager (sample_state ''j1'' ''transcribing''))) \<and>
   list_all (\<lambda>c. index c \<noteq> index (Chunk 5 0 1 0)) (st_chunks (sample_state ''j1'' ''transcribing'')) \<and>
   save_chunk_result sample_manager \<lparr>now_datetime = 7, now_time = 100\<rparr> Written sample_disk ''j1''
     (Chunk 5 0 1 0) =
     write_text sample_disk (now_time \<lparr>now_datetime = 7, now_time = 100\<rparr>)
       (st_job_id (sample_state ''j1'' ''transcribing''))
       (json_dump sample_manager
          ((sample_state ''j1'' ''transcribing'')
             \<lparr>st_created_at := isoformat sample_manager
                  (created_at (the (to_job sample_manager (sample_state ''j1'' ''transcribing'')))),
              st_updated_at := isoformat sample_manager
                  (now_datetime \<lparr>now_datetime = 7, now_time = 100\<rparr>),
              st_audio_path := path_if (st_audio_path (sample_state ''j1'' ''transcribing'')),
              st_chunks_dir := None,
              st_chunk_config := [(''duration_seconds'', chunk_duration (chunk_config sample_manager)),
                                  (''overlap_seconds'', overlap (chunk_config sample_manager))],
              st_output_path := path_if (st_output_path (sample_state ''j1'' ''transcribing''))\<rparr>))
       Written"
proof -
  let ?s = "sample_state ''j1'' ''transcribing''"
  let ?f = "\<lparr>mtime = 90, content = ''j1:transcribing''\<rparr>"
  let ?clk = "\<lparr>now_datetime = 7, now_time = 100\<rparr>"
  have h0: "load_job sample_manager sample_disk ''zz'' = None" by code_simp
  have h1: "sample_disk ''j1'' = Some ?f" by (simp add: sample_disk_def)
  have h2: "json_load sample_manager (content ?f) = Some ?s" by code_simp
  have h3: "to_job sample_manager ?s = Some (the (to_job sample_manager ?s))" by code_simp
  have h4: "list_all (\<lambda>c. index c \<noteq> index (Chunk 5 0 1 0)) (st_chunks ?s)" by code_simp
  have h4': "\<forall>c\<in>set (st_chunks ?s). index c \<noteq> index (Chunk 5 0 1 0)"
    using h4 by (simp only: list_all_iff)
  note T = save_chunk_result_no_match_record
    [of sample_manager sample_disk _ ?clk Written "Chunk 5 0 1 0"]
  note T1 = T [of "''zz''", THEN conjunct1, rule_format, OF h0]
  note T2 = T [of "''j1''", THEN conjunct2, rule_format,
      OF conjI [OF h1 conjI [OF h2 conjI [OF h3 h4']]]]
  show ?thesis by (intro conjI) (rule h0 h1 h2 h3 h4 T1 T2)+
qed

text \<open>
  C10 as stated fails: \<open>updated_at\<close> is not the only field of the record that changes. A
  record stored with the chunks directory \<open>temp\<close> is written back, after a checkpoint
  whose index matches no chunk, with the chunks directory null.
\<close>

theorem save_chunk_result_nulls_chunks_dir_counterexample:
  "map_option content (dir_disk ''j1'') = Some ''j1:transcribing:temp'' \<and>
   map_option st_chunks_dir (json_load dir_manager ''j1:transcribing:temp'') = Some (Some ''temp'') \<and>
   list_all (\<lambda>c. index c \<noteq> index (Chunk 5 0 1 0))
     (job_chunks (the (load_job dir_manager dir_disk ''j1''))) \<and>
   map_option content
     (save_chunk_result dir_manager \<lparr>now_datetime = 7, now_time = 100\<rparr> Written dir_disk ''j1''
        (Chunk 5 0 1 0) ''j1'') = Some ''j1:transcribing:null'' \<and>
   map_option st_chunks_dir (json_load dir_manager ''j1:transcribing:null'') = Some None"
  by code_simp

text \<open>
  C1 (as amended). \<open>save_job\<close> writes the document into \<open>jobs/<id>.json\<close> in place: when
  the write completes the file holds the whole document; when opening fails the directory
  is unchanged; and when the write stops early the file holds only the first characters of
  the new document, possibly none. \<open>load_job\<close> returns a job exactly when the file exists,
  its text parses and the parsed state converts to a job; in every other case, a text
  that cannot be parsed included, it returns \<open>None\<close> and raises nothing.
\<close>

theorem save_job_in_place_load_job_total:
  "fst (save_job m clk Written d j cd) =
     d(job_id j \<mapsto> \<lparr>mtime = now_time clk,
         content = json_dump m (from_job m (j\<lparr>updated_at := now_datetime clk\<rparr>) cd)\<rparr>) \<and>
   fst (save_job m clk OpenFailed d j cd) = d \<and>
   fst (save_job m clk (Stopped n) d j cd) =
     d(job_id j \<mapsto> \<lparr>mtime = now_time clk,
         content = take n (json_dump m (from_job m (j\<lparr>updated_at := now_datetime clk\<rparr>) cd))\<rparr>) \<and>
   (load_job m d' stem = Some j' \<longleftrightarrow>
      (\<exists>f s. d' stem = Some f \<and> json_load m (content f) = Some s \<and> to_job m s = Some j')) \<and>
   (d' stem = Some f \<and> json_load m (content f) = None \<longrightarrow> load_job m d' stem = None)"
  by (auto simp: save_job_def Let_def load_job_def split: option.splits)

theorem save_job_in_place_load_job_total_witness:
  "sample_disk ''j1'' = Some \<lparr>mtime = 90, content = ''j1:transcribing''\<rparr> \<and>
   json_load sample_manager (content \<lparr>mtime = 90, content = ''junk''\<rparr>) = None \<and>
   load_job sample_manager (sample_disk(''j1'' \<mapsto> \<lparr>mtime = 90, content = ''junk''\<rparr>)) ''j1'' = None \<and>
   fst (save_job sample_manager \<lparr>now_datetime = 7, now_time = 100\<rparr> (Stopped 3) sample_disk
          (sample_job\<lparr>job_status := MERGING\<rparr>) None) ''j1'' =
     Some \<lparr>mtime = 100, content = ''j1:''\<rparr>"
proof -
  have h1: "(sample_disk(''j1'' \<mapsto> \<lparr>mtime = 90, content = ''junk''\<rparr>)) ''j1'' =
      Some \<lparr>mtime = 90, content = ''junk''\<rparr>" by simp
  have h2: "json_load sample_manager (content \<lparr>mtime = 90, content = ''junk''\<rparr>) = None"
    by code_simp
  have h3: "sample_disk ''j1'' = Some \<lparr>mtime = 90, content = ''j1:transcribing''\<rparr>"
    by (simp add: sample_disk_def)
  have h4: "take 3 (json_dump sample_manager (from_job sample_manager
      ((sample_job\<lparr>job_status := MERGING\<rparr>)\<lparr>updated_at := 7\<rparr>) None)) = ''j1:''" by code_simp
  have h5: "job_id (sample_job\<lparr>job_status := MERGING\<rparr>) = ''j1''" by (simp add: sample_job_def)
  show ?thesis
    using h1 h2 h3 h4 h5
      save_job_in_place_load_job_total [of sample_manager "\<lparr>now_datetime = 7, now_time = 100\<rparr>"
        sample_disk "sample_job\<lparr>job_status := MERGING\<rparr>" None 3
        "sample_disk(''j1'' \<mapsto> \<lparr>mtime = 90, content = ''junk''\<rparr>)" "''j1''" undefined
        "\<lparr>mtime = 90, content = ''junk''\<rparr>"]
    by simp
qed

text \<open>
  C1 as stated fails: the write is not a write-then-rename. A \<open>save_job\<close> that stops after
  three characters leaves in \<open>jobs/j1.json\<close> a text that is neither the record that was
  there nor the new record.
\<close>

theorem save_job_torn_counterexample:
  "map_option content (sample_disk ''j1'') = Some ''j1:transcribing'' \<and>
   json_dump sample_manager (from_job sample_manager
      ((sample_job\<lparr>job_status := MERGING\<rparr>)\<lparr>updated_at := 7\<rparr>) None) = ''j1:merging'' \<and>
   map_option content
     (fst (save_job sample_manager \<lparr>now_datetime = 7, now_time = 100\<rparr> (Stopped 3) sample_disk
             (sample_job\<lparr>job_status := MERGING\<rparr>) None) ''j1'') = Some ''j1:'' \<and>
   ''j1:'' \<noteq> ''j1:transcribing'' \<and> ''j1:'' \<noteq> ''j1:merging''"
  by code_simp

end
